theory Spec2Isabelle
  imports Complex_Main
begin

section \<open>Numbers and optional fields\<close>

text \<open>
  A JavaScript \<open>number\<close> is modelled as a \<open>real\<close>; \<open>NaN\<close> and \<open>Infinity\<close> are outside the
  model. Where the code compares computed numbers to choose a branch (the ranking and the
  close-competition check of the orchestrator, the expected value of information), every
  operation is rounded to double precision as the code does it, see the next section.
  Elsewhere the arithmetic of the source is read as exact arithmetic. Counters
  (\<open>trials\<close>, \<open>count\<close>) are \<open>nat\<close>, the feedback value \<open>delta\<close> is an \<open>int\<close>. An optional field
  of an interface (\<open>alphaParam?: number\<close>) is an \<open>option\<close>, \<open>None\<close> being \<open>undefined\<close>.

  \<open>x || d\<close> on an optional number yields \<open>d\<close> when \<open>x\<close> is \<open>undefined\<close> or \<open>0\<close>; \<open>if (x)\<close> on
  an optional number is taken when \<open>x\<close> is defined and not \<open>0\<close>.
\<close>

definition orElse :: "real option \<Rightarrow> real \<Rightarrow> real" where
  "orElse x d = (case x of None \<Rightarrow> d | Some v \<Rightarrow> if v = 0 then d else v)"

definition truthy :: "real option \<Rightarrow> bool" where
  "truthy x = (case x of None \<Rightarrow> False | Some v \<Rightarrow> v \<noteq> 0)"

section \<open>Double precision\<close>

text \<open>
  The value of an arithmetic operation of the code is the double nearest to the exact
  result, a tie going to the double with the even significand (IEEE 754 binary64, which
  ECMAScript prescribes for \<open>+\<close>, \<open>-\<close>, \<open>*\<close> and \<open>/\<close>; \<open>Math.sqrt\<close> is taken to be the correctly
  rounded square root of IEEE 754, which is what the engines compute). A double is an
  integer of at most 53 bits times a power of two that is at least \<open>2 powi (-1074)\<close>.

  \<open>roundEven\<close> rounds to the nearest integer, a tie to the even one. \<open>quantum x\<close> is the
  exponent of the spacing of the doubles around \<open>x\<close>; below \<open>2 powi (-1022)\<close> the spacing
  stays \<open>2 powi (-1074)\<close>. \<open>double x\<close> is the double nearest to \<open>x\<close>. A decimal literal of the
  source denotes the nearest double as well: \<open>0.05\<close> is \<open>double 0.05\<close>. The overflow to
  \<open>Infinity\<close> from \<open>2 ^ 1024\<close> on and the sign of a zero are not modelled.
\<close>

definition roundEven :: "real \<Rightarrow> int" where
  "roundEven r =
     (let f = \<lfloor>r\<rfloor>; d = r - of_int f
      in if d < 1 / 2 then f else if 1 / 2 < d then f + 1
         else if even f then f else f + 1)"

definition quantum :: "real \<Rightarrow> int" where
  "quantum x = max (\<lfloor>log 2 \<bar>x\<bar>\<rfloor> - 52) (- 1074)"

definition double :: "real \<Rightarrow> real" where
  "double x =
     (if x = 0 then 0 else of_int (roundEven (x / 2 powi quantum x)) * 2 powi quantum x)"

section \<open>Beta-Bernoulli primitives (src/state/thompson-sampling.ts)\<close>

record BetaParams =
  alpha :: real
  beta :: real

definition deltaToReward :: "int \<Rightarrow> real" where
  "deltaToReward delta = (if delta = 1 then 1.0 else if delta = 0 then 0.5 else 0.0)"

definition updateBetaParams :: "real \<Rightarrow> real \<Rightarrow> real \<Rightarrow> BetaParams" where
  "updateBetaParams currentAlpha currentBeta reward =
     \<lparr>alpha = currentAlpha + reward, beta = currentBeta + (1 - reward)\<rparr>"

definition betaMean :: "real \<Rightarrow> real \<Rightarrow> real" where
  "betaMean a b = a / (a + b)"

text \<open>\<open>betaMean\<close> above is the mean as a real number. \<open>betaMean64\<close> is the number that the
  code computes for it, one rounding for the sum and one for the quotient; \<open>betaVariance\<close>
  and \<open>betaCredibleInterval\<close> are given as the code computes them.\<close>

definition betaMean64 :: "real \<Rightarrow> real \<Rightarrow> real" where
  "betaMean64 a b = double (a / double (a + b))"

definition betaVariance :: "real \<Rightarrow> real \<Rightarrow> real" where
  "betaVariance a b =
     (let sum = double (a + b)
      in double (double (a * b) / double (double (sum * sum) * double (sum + 1))))"

definition betaCredibleInterval :: "real \<Rightarrow> real \<Rightarrow> real \<times> real" where
  "betaCredibleInterval a b =
     (let mean = betaMean64 a b;
          variance = betaVariance a b;
          stdDev = double (sqrt variance)
      in (max 0 (double (mean - double (double 1.96 * stdDev))),
          min 1 (double (mean + double (double 1.96 * stdDev)))))"

section \<open>Exploration value (src/state/confidence-based-exploration.ts)\<close>

definition calculateEVPI :: "real \<Rightarrow> real \<Rightarrow> real \<Rightarrow> real" where
  "calculateEVPI protocolAlpha protocolBeta currentBestMean =
     (let mean = betaMean64 protocolAlpha protocolBeta;
          variance = betaVariance protocolAlpha protocolBeta;
          (lowerBound, upperBound) = betaCredibleInterval protocolAlpha protocolBeta
      in if upperBound < double (currentBestMean - double 0.05) then 0
         else if lowerBound > double (currentBestMean + double 0.05)
         then double (double (lowerBound - currentBestMean) * 10)
         else (let potentialGain = max 0 (double (mean - currentBestMean));
                   uncertaintyValue = double (double (sqrt variance) * 5)
               in double (potentialGain + uncertaintyValue)))"

section \<open>Drift detection (src/state/drift-detection.ts)\<close>

definition DRIFT_WINDOW_SIZE :: nat where "DRIFT_WINDOW_SIZE = 5"
definition DRIFT_VARIANCE_THRESHOLD :: real where "DRIFT_VARIANCE_THRESHOLD = 0.30"
definition DRIFT_COOLDOWN_MS :: real where "DRIFT_COOLDOWN_MS = 3600000"

definition calculateRecentVariance :: "real list \<Rightarrow> real" where
  "calculateRecentVariance recentScores =
     (if length recentScores < 3 then 0
      else (let mean = sum_list recentScores / real (length recentScores);
                squaredDiffs = map (\<lambda>val. (val - mean)\<^sup>2) recentScores
            in sum_list squaredDiffs / real (length recentScores)))"

text \<open>\<open>updated.slice(-n)\<close> keeps the last \<open>n\<close> elements.\<close>

definition sliceLast :: "nat \<Rightarrow> 'a list \<Rightarrow> 'a list" where
  "sliceLast n xs = drop (length xs - n) xs"

definition updateScoreWindow :: "real list \<Rightarrow> real \<Rightarrow> real list" where
  "updateScoreWindow currentWindow newScore =
     (let updated = currentWindow @ [newScore]
      in if length updated > DRIFT_WINDOW_SIZE then sliceLast DRIFT_WINDOW_SIZE updated
         else updated)"

text \<open>\<open>Date.now()\<close> is the first argument \<open>now\<close>, in milliseconds.\<close>

definition shouldResetDueToDrift :: "real \<Rightarrow> real \<Rightarrow> real option \<Rightarrow> bool" where
  "shouldResetDueToDrift now recentVariance lastResetTimestamp =
     (if recentVariance < DRIFT_VARIANCE_THRESHOLD then False
      else if truthy lastResetTimestamp \<and> now - the lastResetTimestamp < DRIFT_COOLDOWN_MS
           then False
      else True)"

definition softResetBetaParams :: "real \<Rightarrow> real \<Rightarrow> BetaParams" where
  "softResetBetaParams currentAlpha currentBeta =
     (let totalTrials = currentAlpha + currentBeta - 2;
          keepRatio = 0.25;
          mean = currentAlpha / (currentAlpha + currentBeta);
          keptTrials = of_int \<lfloor>totalTrials * keepRatio\<rfloor>
      in \<lparr>alpha = 1 + mean * keptTrials, beta = 1 + (1 - mean) * keptTrials\<rparr>)"

section \<open>Data model (src/types.ts)\<close>

datatype Goal = Calm | Focus | PreSleep

text \<open>A protocol of the catalog. The display cues are left out: nothing in the decision
  core reads them. The field \<open>id\<close> of the source is \<open>protocol_id\<close> here.\<close>

record Protocol =
  protocol_id :: string
  name :: string
  supports :: "Goal list"
  baseSeconds :: real

text \<open>An entry of \<open>hourlyModels\<close> (source fields \<open>trials\<close>, \<open>alpha\<close>, \<open>beta\<close>, \<open>avg\<close>) and an
  entry of \<open>hourlyPerformance\<close> (source fields \<open>sum\<close>, \<open>count\<close>).\<close>

record HourlyModel =
  h_trials :: nat
  h_alpha :: real
  h_beta :: real
  h_avg :: real

record HourlyPerformance =
  hp_sum :: real
  hp_count :: nat

record ProtocolModel =
  trials :: nat
  avg :: real
  lastUsedISO :: "string option"
  lastDelta :: "int option"
  medDuration :: "real option"
  hourlyPerformance :: "(nat \<rightharpoonup> HourlyPerformance) option"
  emaAvg :: "real option"
  alphaParam :: "real option"
  betaParam :: "real option"
  hourlyModels :: "(nat \<rightharpoonup> HourlyModel) option"
  recentVariance :: "real option"
  lastResetTimestamp :: "real option"
  windowScores :: "real list option"

record SessionRecord =
  dateISO :: string
  goal :: Goal
  protocolId :: string
  seconds :: real
  delta :: int

text \<open>The persisted state: the value stored under the key \<open>eukairo.v1\<close>. \<open>loadData\<close> reads
  it and \<open>saveData\<close> replaces it, so a function of the core that loads, changes and saves is
  a function from the stored state to the stored state.\<close>

record AppData =
  models :: "string \<rightharpoonup> ProtocolModel"
  history :: "SessionRecord list"
  streak :: nat

definition defaultData :: AppData where
  "defaultData = \<lparr>models = Map.empty, history = [], streak = 0\<rparr>"

text \<open>What the calls \<open>Date.now()\<close>, \<open>new Date().getHours()\<close> and
  \<open>new Date().toISOString()\<close> return during one call of the core.\<close>

record Clock =
  nowMs :: real
  hourOfDay :: nat
  isoString :: string

section \<open>Hourly sub-models (src/state/contextual-bandits.ts)\<close>

definition initializeHourlyModel :: HourlyModel where
  "initializeHourlyModel = \<lparr>h_trials = 0, h_alpha = 1, h_beta = 1, h_avg = 0\<rparr>"

definition updateHourlyModel :: "ProtocolModel \<Rightarrow> nat \<Rightarrow> real \<Rightarrow> ProtocolModel" where
  "updateHourlyModel model hour reward =
     (let hm = (case hourlyModels model of None \<Rightarrow> Map.empty | Some m \<Rightarrow> m);
          hourlyModel = (case hm hour of None \<Rightarrow> initializeHourlyModel | Some h \<Rightarrow> h);
          hourlyModel = hourlyModel\<lparr>h_alpha := h_alpha hourlyModel + reward\<rparr>;
          hourlyModel = hourlyModel\<lparr>h_beta := h_beta hourlyModel + (1 - reward)\<rparr>;
          hourlyModel = hourlyModel\<lparr>h_trials := h_trials hourlyModel + 1\<rparr>;
          hourlyModel = hourlyModel\<lparr>h_avg :=
            (h_avg hourlyModel * real (h_trials hourlyModel - 1) + reward)
              / real (h_trials hourlyModel)\<rparr>
      in model\<lparr>hourlyModels := Some (hm(hour \<mapsto> hourlyModel))\<rparr>)"

section \<open>Feedback (src/state/storage.ts, src/state/SessionProvider.tsx)\<close>


text \<open>The object that \<open>updateModel\<close> starts from when the protocol has no stored model.\<close>

definition freshModel :: ProtocolModel where
  "freshModel =
     \<lparr>trials = 0, avg = 0, lastUsedISO = None, lastDelta = None, medDuration = None,
      hourlyPerformance = Some Map.empty, emaAvg = Some 0,
      alphaParam = Some 1, betaParam = Some 1,
      hourlyModels = Some Map.empty, recentVariance = Some 0, lastResetTimestamp = None,
      windowScores = Some []\<rparr>"

text \<open>The step of the dose search (lines 99 to 105 of \<open>updateModel\<close>): the last three
  history records of the protocol decide.\<close>

definition medStep :: "SessionRecord list \<Rightarrow> string \<Rightarrow> real" where
  "medStep hist protocolId' =
     (let step = 15;
          recentSessions = sliceLast 3 (filter (\<lambda>s. protocolId s = protocolId') hist);
          consecutiveBetter = (length recentSessions \<ge> 2
             \<and> list_all (\<lambda>s. delta s = 1) (sliceLast 2 recentSessions));
          hadWorse = list_ex (\<lambda>s. delta s = -1) recentSessions;
          step = (if consecutiveBetter then 10 else step);
          step = (if hadWorse then 20 else step)
      in step)"

text \<open>\<open>updateModel\<close> changes the model statement by statement. Each group of statements
  is a function on the model here, in the order of the source; \<open>updateModel\<close> chains them.\<close>

text \<open>Lines 55 to 62: running average and exponential average.\<close>

definition updateAverages :: "int \<Rightarrow> ProtocolModel \<Rightarrow> ProtocolModel" where
  "updateAverages delta' model =
     (if trials model = 0
      then model\<lparr>avg := of_int delta', emaAvg := Some (of_int delta')\<rparr>
      else (let newAvg = (avg model * real (trials model) + of_int delta')
                           / (real (trials model) + 1);
                smoothing = 0.2
            in model\<lparr>avg := newAvg,
                     emaAvg := Some (orElse (emaAvg model) newAvg * (1 - smoothing)
                                       + of_int delta' * smoothing)\<rparr>))"

text \<open>Lines 64 to 66.\<close>

definition countTrial :: "Clock \<Rightarrow> int \<Rightarrow> ProtocolModel \<Rightarrow> ProtocolModel" where
  "countTrial clk delta' model =
     model\<lparr>trials := trials model + 1, lastUsedISO := Some (isoString clk),
           lastDelta := Some delta'\<rparr>"

text \<open>Lines 68 to 74: the conjugate update of the posterior.\<close>

definition updatePosterior :: "real \<Rightarrow> ProtocolModel \<Rightarrow> ProtocolModel" where
  "updatePosterior reward model =
     (let betaUpdate = updateBetaParams (orElse (alphaParam model) 1)
                         (orElse (betaParam model) 1) reward
      in model\<lparr>alphaParam := Some (alpha betaUpdate), betaParam := Some (beta betaUpdate)\<rparr>)"

text \<open>Lines 78 and 79: the window of recent scores and its variance.\<close>

definition updateDriftWindow :: "int \<Rightarrow> ProtocolModel \<Rightarrow> ProtocolModel" where
  "updateDriftWindow delta' model =
     (let window = updateScoreWindow (case windowScores model of None \<Rightarrow> [] | Some w \<Rightarrow> w)
                     (of_int delta')
      in model\<lparr>windowScores := Some window,
               recentVariance := Some (calculateRecentVariance window)\<rparr>)"

text \<open>Lines 81 to 90: the soft reset. Both \<open>recentVariance\<close> and the posterior parameters
  were written by the statements before, so they are defined here.\<close>

definition softResetOnDrift :: "Clock \<Rightarrow> ProtocolModel \<Rightarrow> ProtocolModel" where
  "softResetOnDrift clk model =
     (if shouldResetDueToDrift (nowMs clk) (the (recentVariance model))
           (lastResetTimestamp model)
      then (let resetParams = softResetBetaParams (the (alphaParam model))
                                (the (betaParam model))
            in model\<lparr>alphaParam := Some (alpha resetParams),
                     betaParam := Some (beta resetParams),
                     emaAvg := Some 0, avg := 0,
                     lastResetTimestamp := Some (nowMs clk),
                     windowScores := Some []\<rparr>)
      else model)"

text \<open>Lines 92 to 97.\<close>

definition updateHourlyPerformance :: "nat \<Rightarrow> int \<Rightarrow> ProtocolModel \<Rightarrow> ProtocolModel" where
  "updateHourlyPerformance hour delta' model =
     (let hp = (case hourlyPerformance model of None \<Rightarrow> Map.empty | Some m \<Rightarrow> m);
          entry = (case hp hour of None \<Rightarrow> \<lparr>hp_sum = 0, hp_count = 0\<rparr> | Some e \<Rightarrow> e)
      in model\<lparr>hourlyPerformance := Some (hp(hour \<mapsto>
            \<lparr>hp_sum = hp_sum entry + of_int delta', hp_count = hp_count entry + 1\<rparr>))\<rparr>)"

text \<open>Lines 107 to 113: the new dose.\<close>

definition updateMedDuration :: "int \<Rightarrow> real \<Rightarrow> real \<Rightarrow> ProtocolModel \<Rightarrow> ProtocolModel" where
  "updateMedDuration delta' currentDuration step model =
     (if delta' = 1 then model\<lparr>medDuration := Some (max 45 (currentDuration - step))\<rparr>
      else if delta' = -1 then model\<lparr>medDuration := Some (min 180 (currentDuration + step))\<rparr>
      else model\<lparr>medDuration := Some currentDuration\<rparr>)"

definition updateModel :: "Clock \<Rightarrow> string \<Rightarrow> int \<Rightarrow> real \<Rightarrow> AppData \<Rightarrow> AppData" where
  "updateModel clk protocolId' delta' currentDuration data =
     (let model = (case models data protocolId' of None \<Rightarrow> freshModel | Some m \<Rightarrow> m);
          hour = hourOfDay clk;
          reward = deltaToReward delta';
          model = updateAverages delta' model;
          model = countTrial clk delta' model;
          model = updatePosterior reward model;
          model = updateHourlyModel model hour reward;
          model = updateDriftWindow delta' model;
          model = softResetOnDrift clk model;
          model = updateHourlyPerformance hour delta' model;
          step = medStep (history data) protocolId';
          model = updateMedDuration delta' currentDuration step model
      in data\<lparr>models := (models data)(protocolId' \<mapsto> model)\<rparr>)"


section \<open>The catalog (src/data/protocols.ts)\<close>

definition protocols :: "Protocol list" where
  "protocols =
     [\<lparr>protocol_id = ''physiological-sigh'', name = ''Physiological Sigh'',
       supports = [Calm, PreSleep], baseSeconds = 90\<rparr>,
      \<lparr>protocol_id = ''box-breathing'', name = ''Box Breathing 4-4-4-4'',
       supports = [Calm, Focus, PreSleep], baseSeconds = 120\<rparr>,
      \<lparr>protocol_id = ''eye-break'', name = ''20-20-20 Eye Break'',
       supports = [Focus, Calm], baseSeconds = 60\<rparr>,
      \<lparr>protocol_id = ''4-7-8-breathing'', name = ''4-7-8 Breathing'',
       supports = [PreSleep, Calm], baseSeconds = 120\<rparr>,
      \<lparr>protocol_id = ''alternate-nostril'', name = ''Alternate Nostril'',
       supports = [Calm, Focus], baseSeconds = 90\<rparr>]"

definition getProtocolsByGoal :: "Goal \<Rightarrow> Protocol list" where
  "getProtocolsByGoal g = filter (\<lambda>p. g \<in> set (supports p)) protocols"

section \<open>The random source and the samplers (src/state/thompson-sampling.ts)\<close>

text \<open>
  The random source is the sequence of values that \<open>Math.random()\<close> returns during one
  call, in program order: \<open>rnd 0\<close> is the value of the next call, \<open>advance n rnd\<close> the
  source after \<open>n\<close> calls. A function that draws returns the source that remains together
  with its value.
\<close>

type_synonym rng = "nat \<Rightarrow> real"

definition advance :: "nat \<Rightarrow> rng \<Rightarrow> rng" where
  "advance n rnd = (\<lambda>i. rnd (i + n))"

text \<open>The Box-Muller transform. For \<open>u1 = 0\<close> the code computes with \<open>-Infinity\<close>, which the
  reals do not have; statements about the samplers are made for sources without the
  value 0.\<close>

definition randomNormal :: "real \<Rightarrow> real \<Rightarrow> rng \<Rightarrow> real \<times> rng" where
  "randomNormal mean stdDev rnd =
     (let u1 = rnd 0;
          u2 = rnd 1;
          z0 = sqrt (- 2 * ln u1) * cos (2 * pi * u2)
      in (z0 * stdDev + mean, advance 2 rnd))"

text \<open>
  The loop \<open>while (true)\<close> of \<open>sampleGamma\<close> with its inner \<open>do ... while (v <= 0)\<close>. Both
  loops start by drawing a normal value, so one recursive function serves for both: with
  \<open>v \<le> 0\<close> the inner loop draws again, after a rejected candidate the outer loop does.
  Nothing bounds the number of rounds; \<open>None\<close> is the run that never returns.
\<close>

partial_function (option) gammaLoop :: "real \<Rightarrow> real \<Rightarrow> rng \<Rightarrow> (real \<times> rng) option" where
  "gammaLoop d c rnd =
     (let (x, rnd1) = randomNormal 0 1 rnd;
          v = 1 + c * x
      in if v \<le> 0 then gammaLoop d c rnd1
         else (let v = v * v * v;
                   u = rnd1 0;
                   rnd2 = advance 1 rnd1
               in if u < 1 - 0.0331 * x * x * x * x then Some (d * v, rnd2)
                  else if ln u < 0.5 * x * x + d * (1 - v + ln v) then Some (d * v, rnd2)
                  else gammaLoop d c rnd2))"

text \<open>
  \<open>sampleGamma\<close>: a shape below 1 is raised by 1 first; the recursive call is evaluated
  before \<open>Math.random()\<close>. \<open>Math.pow(u, 1 / shape)\<close> is \<open>u powr (1 / shape)\<close> for \<open>u\<close> in
  \<open>(0, 1)\<close>, except for the shape 0, where the exponent is \<open>Infinity\<close> and the power is 0.
\<close>

function sampleGamma :: "real \<Rightarrow> rng \<Rightarrow> (real \<times> rng) option" where
  "sampleGamma shape rnd =
     (if shape < 1
      then (case sampleGamma (shape + 1) rnd of
              None \<Rightarrow> None
            | Some (g, rnd1) \<Rightarrow>
                Some (g * (if shape = 0 then 0 else (rnd1 0) powr (1 / shape)),
                      advance 1 rnd1))
      else (let d = shape - 1 / 3;
                c = 1 / sqrt (9 * d)
            in gammaLoop d c rnd))"
  by pat_completeness auto
termination
proof (relation "measure (\<lambda>(shape, rnd). nat \<lceil>1 - shape\<rceil>)")
  show "wf (measure (\<lambda>(shape, rnd). nat \<lceil>1 - shape\<rceil>))" by simp
next
  fix shape :: real and rnd :: rng
  assume "shape < 1"
  then have "0 < \<lceil>1 - shape\<rceil>" by simp
  moreover have "\<lceil>1 - (shape + 1)\<rceil> = \<lceil>1 - shape\<rceil> - 1"
  proof -
    have "1 - (shape + 1) = (1 - shape) - 1" by simp
    then show ?thesis by (simp only: ceiling_diff_one)
  qed
  ultimately show "((shape + 1, rnd), shape, rnd) \<in> measure (\<lambda>(shape, rnd). nat \<lceil>1 - shape\<rceil>)"
    by simp
qed

declare sampleGamma.simps [simp del]

definition sampleBeta :: "real \<Rightarrow> real \<Rightarrow> rng \<Rightarrow> (real \<times> rng) option" where
  "sampleBeta a b rnd =
     (case sampleGamma a rnd of
        None \<Rightarrow> None
      | Some (gammaAlpha, rnd1) \<Rightarrow>
          (case sampleGamma b rnd1 of
             None \<Rightarrow> None
           | Some (gammaBeta, rnd2) \<Rightarrow> Some (gammaAlpha / (gammaAlpha + gammaBeta), rnd2)))"

text \<open>A call of the core either does not return (\<open>None\<close>), or throws (\<open>Inl\<close>), or
  returns a value (\<open>Inr\<close>).\<close>

datatype error = TypeError

text \<open>\<open>xs[Math.floor(u * xs.length)]\<close>; outside the array the source reads \<open>undefined\<close>,
  and every use in the core then dereferences it, which throws.\<close>

definition pickRandom :: "real \<Rightarrow> 'a list \<Rightarrow> error + 'a" where
  "pickRandom u xs =
     (let i = \<lfloor>u * real (length xs)\<rfloor>
      in if 0 \<le> i \<and> nat i < length xs then Inr (xs ! nat i) else Inl TypeError)"

section \<open>Ensemble voting (src/state/ensemble-methods.ts)\<close>

datatype EnsembleAlgorithm = Thompson | UCB | EpsilonGreedy | Softmax

text \<open>A vote, without its \<open>reasoning\<close> string (formatted numbers for the log).\<close>

record AlgorithmVote =
  vote_algorithm :: EnsembleAlgorithm
  vote_protocolId :: string
  vote_confidence :: real
  vote_score :: real

record EnsembleWeights =
  w_thompson :: real
  w_ucb :: real
  w_epsilonGreedy :: real
  w_softmax :: real

text \<open>An element of the array \<open>protocols\<close> passed to the strategies (source fields \<open>id\<close>,
  \<open>name\<close>, \<open>alpha\<close>, \<open>beta\<close>, \<open>trials\<close>).\<close>

record EnsembleProtocol =
  e_id :: string
  e_name :: string
  e_alpha :: real
  e_beta :: real
  e_trials :: nat

definition posteriorVariance :: "real \<Rightarrow> real \<Rightarrow> real" where
  "posteriorVariance a b = (a * b) / ((a + b)\<^sup>2 * (a + b + 1))"

text \<open>\<open>xs.sort((a, b) => key b - key a)\<close>: a stable sort, largest key first.\<close>

definition sortDesc :: "('a \<Rightarrow> real) \<Rightarrow> 'a list \<Rightarrow> 'a list" where
  "sortDesc key xs = sort_key (\<lambda>x. - key x) xs"

text \<open>The samples of \<open>thompsonVote\<close> are tuples \<open>(id, sample, mean, variance)\<close>; \<open>map\<close>
  calls \<open>sampleBeta\<close> once per protocol, in the order of the array.\<close>

fun thompsonSamples ::
  "EnsembleProtocol list \<Rightarrow> rng \<Rightarrow> ((string \<times> real \<times> real \<times> real) list \<times> rng) option" where
  "thompsonSamples [] rnd = Some ([], rnd)"
| "thompsonSamples (p # ps) rnd =
     (case sampleBeta (e_alpha p) (e_beta p) rnd of
        None \<Rightarrow> None
      | Some (sample, rnd1) \<Rightarrow>
          (case thompsonSamples ps rnd1 of
             None \<Rightarrow> None
           | Some (samples, rnd2) \<Rightarrow>
               Some ((e_id p, sample, betaMean (e_alpha p) (e_beta p),
                      posteriorVariance (e_alpha p) (e_beta p)) # samples, rnd2)))"

definition thompsonVote ::
  "EnsembleProtocol list \<Rightarrow> rng \<Rightarrow> (error + AlgorithmVote \<times> rng) option" where
  "thompsonVote ps rnd =
     (case thompsonSamples ps rnd of
        None \<Rightarrow> None
      | Some (samples, rnd1) \<Rightarrow>
          Some (case sortDesc (\<lambda>(i, sample, m, v). sample) samples of
                  [] \<Rightarrow> Inl TypeError
                | (winnerId, winnerSample, winnerMean, winnerVariance) # rest \<Rightarrow>
                    (let gap = (if length samples > 1
                                then winnerSample - fst (snd (hd rest)) else 0.5);
                         confidence = min 1 (gap * 2) * (1 - sqrt winnerVariance)
                     in Inr (\<lparr>vote_algorithm = Thompson, vote_protocolId = winnerId,
                              vote_confidence = confidence, vote_score = winnerSample\<rparr>,
                             rnd1))))"

text \<open>The scores of \<open>ucbVote\<close> are tuples \<open>(id, score, mean, exploration)\<close>.\<close>

definition ucbVote :: "EnsembleProtocol list \<Rightarrow> nat \<Rightarrow> error + AlgorithmVote" where
  "ucbVote ps totalTrials =
     (let scores = map (\<lambda>p.
            (let mean = betaMean (e_alpha p) (e_beta p);
                 variance = posteriorVariance (e_alpha p) (e_beta p);
                 exploration = sqrt ((2 * ln (real totalTrials + 1)) / (real (e_trials p) + 1));
                 ucbScore = mean + exploration + sqrt variance
             in (e_id p, ucbScore, mean, exploration))) ps
      in case sortDesc (\<lambda>(i, score, m, e). score) scores of
           [] \<Rightarrow> Inl TypeError
         | (winnerId, winnerScore, winnerMean, winnerExploration) # rest \<Rightarrow>
             (let confidence = min 1 (winnerMean / (winnerMean + winnerExploration))
              in Inr \<lparr>vote_algorithm = UCB, vote_protocolId = winnerId,
                      vote_confidence = confidence, vote_score = winnerScore\<rparr>))"

text \<open>\<open>epsilonGreedyVote\<close> calls \<open>Math.random()\<close> once for the coin and, when it explores,
  a second time for the index; the result carries the source that remains.\<close>

definition epsilonGreedyVote ::
  "EnsembleProtocol list \<Rightarrow> nat \<Rightarrow> rng \<Rightarrow> error + (AlgorithmVote \<times> rng)" where
  "epsilonGreedyVote ps totalTrials rnd =
     (let epsilon = max 0.05 (0.2 * exp (- real totalTrials / 30))
      in if rnd 0 < epsilon
         then (case pickRandom (rnd 1) ps of
                 Inl e \<Rightarrow> Inl e
               | Inr randomProtocol \<Rightarrow>
                   Inr (\<lparr>vote_algorithm = EpsilonGreedy, vote_protocolId = e_id randomProtocol,
                         vote_confidence = 0.3,
                         vote_score = betaMean (e_alpha randomProtocol) (e_beta randomProtocol)\<rparr>,
                        advance 2 rnd))
         else (let means = map (\<lambda>p. (e_id p, betaMean (e_alpha p) (e_beta p),
                                       posteriorVariance (e_alpha p) (e_beta p))) ps
               in case sortDesc (\<lambda>(i, m, v). m) means of
                    [] \<Rightarrow> Inl TypeError
                  | (winnerId, winnerMean, winnerVariance) # rest \<Rightarrow>
                      Inr (\<lparr>vote_algorithm = EpsilonGreedy, vote_protocolId = winnerId,
                            vote_confidence = 1 - sqrt winnerVariance,
                            vote_score = winnerMean\<rparr>,
                           advance 1 rnd)))"

text \<open>The loop of \<open>softmaxVote\<close>: the first index whose cumulative probability reaches
  \<open>rand\<close>, and index 0 when the loop ends without a \<open>break\<close>.\<close>

fun softmaxIndex :: "real \<Rightarrow> real list \<Rightarrow> real \<Rightarrow> nat \<Rightarrow> nat" where
  "softmaxIndex rand [] cumulativeProb i = 0"
| "softmaxIndex rand (p # probabilities) cumulativeProb i =
     (let cumulativeProb = cumulativeProb + p
      in if rand \<le> cumulativeProb then i
         else softmaxIndex rand probabilities cumulativeProb (i + 1))"

definition softmaxVote :: "EnsembleProtocol list \<Rightarrow> nat \<Rightarrow> rng \<Rightarrow> error + AlgorithmVote" where
  "softmaxVote ps totalTrials rnd =
     (let temperature = max 0.1 (1.0 * exp (- real totalTrials / 40));
          means = map (\<lambda>p. betaMean (e_alpha p) (e_beta p)) ps;
          expScores = map (\<lambda>mean. exp (mean / temperature)) means;
          sumExp = sum_list expScores;
          probabilities = map (\<lambda>e. e / sumExp) expScores;
          rand = rnd 0;
          selectedIndex = softmaxIndex rand probabilities 0 0
      in if selectedIndex < length ps
         then Inr \<lparr>vote_algorithm = Softmax, vote_protocolId = e_id (ps ! selectedIndex),
                   vote_confidence = probabilities ! selectedIndex,
                   vote_score = means ! selectedIndex\<rparr>
         else Inl TypeError)"

definition weightOf :: "EnsembleWeights \<Rightarrow> EnsembleAlgorithm \<Rightarrow> real" where
  "weightOf weights a =
     (case a of Thompson \<Rightarrow> w_thompson weights | UCB \<Rightarrow> w_ucb weights
      | EpsilonGreedy \<Rightarrow> w_epsilonGreedy weights | Softmax \<Rightarrow> w_softmax weights)"

text \<open>\<open>voteCounts\<close> is an object used as a dictionary; its entries are listed in the order
  in which the keys were first written (the ids of the catalog are not array indices), so
  it is an association list here.\<close>

fun addCount :: "(string \<times> real) list \<Rightarrow> string \<Rightarrow> real \<Rightarrow> (string \<times> real) list" where
  "addCount [] k w = [(k, 0 + w)]"
| "addCount ((k', c) # rest) k w =
     (if k' = k then (k', c + w) # rest else (k', c) # addCount rest k w)"

fun countVotes ::
  "EnsembleWeights \<Rightarrow> AlgorithmVote list \<Rightarrow> (string \<times> real) list \<Rightarrow> (string \<times> real) list" where
  "countVotes weights [] voteCounts = voteCounts"
| "countVotes weights (vote # votes) voteCounts =
     (let weight = weightOf weights (vote_algorithm vote);
          weightedConfidence = weight * vote_confidence vote
      in countVotes weights votes (addCount voteCounts (vote_protocolId vote) weightedConfidence))"

text \<open>The result of \<open>ensembleVoting\<close>, without its \<open>explanation\<close> string.\<close>

record EnsembleResult =
  selectedProtocolId :: string
  selectedProtocolName :: string
  votes :: "AlgorithmVote list"
  consensusScore :: real

text \<open>The default value of the parameter \<open>weights\<close>; the orchestrator passes its own.\<close>

definition defaultWeights :: EnsembleWeights where
  "defaultWeights = \<lparr>w_thompson = 0.4, w_ucb = 0.3, w_epsilonGreedy = 0.15, w_softmax = 0.15\<rparr>"

text \<open>The four strategies run in the order of the array literal; each \<open>Inl\<close> is the
  \<open>TypeError\<close> of reading a property of \<open>undefined\<close>, which happens only for an empty
  \<open>protocols\<close> array or an index outside it.\<close>

definition ensembleVoting ::
  "EnsembleProtocol list \<Rightarrow> nat \<Rightarrow> EnsembleWeights \<Rightarrow> rng
     \<Rightarrow> (error + EnsembleResult) option" where
  "ensembleVoting ps totalTrials weights rnd =
     (case thompsonVote ps rnd of
        None \<Rightarrow> None
      | Some (Inl e) \<Rightarrow> Some (Inl e)
      | Some (Inr (v1, rnd1)) \<Rightarrow>
          Some
           (case ucbVote ps totalTrials of Inl e \<Rightarrow> Inl e | Inr v2 \<Rightarrow>
            case epsilonGreedyVote ps totalTrials rnd1 of
              Inl e \<Rightarrow> Inl e | Inr (v3, rnd2) \<Rightarrow>
            case softmaxVote ps totalTrials rnd2 of Inl e \<Rightarrow> Inl e | Inr v4 \<Rightarrow>
              (let votes = [v1, v2, v3, v4];
                   voteCounts = countVotes weights votes []
               in case sortDesc snd voteCounts of
                    [] \<Rightarrow> Inl TypeError
                  | winner # rest \<Rightarrow>
                      (let selectedProtocolId = fst winner
                       in case find (\<lambda>p. e_id p = selectedProtocolId) ps of
                            None \<Rightarrow> Inl TypeError
                          | Some selectedProtocol \<Rightarrow>
                              (let agreementCount = length
                                     (filter (\<lambda>v. vote_protocolId v = selectedProtocolId)
                                        votes);
                                   consensusScore =
                                     real agreementCount / real (length votes)
                               in Inr \<lparr>selectedProtocolId = selectedProtocolId,
                                       selectedProtocolName = e_name selectedProtocol,
                                       votes = votes,
                                       consensusScore = consensusScore\<rparr>)))))"

section \<open>The selection orchestrator (src/state/bandit.ts)\<close>

definition MIN_TRIALS_FOR_THOMPSON :: nat where "MIN_TRIALS_FOR_THOMPSON = 2"
definition EXPLORATION_BONUS :: real where "EXPLORATION_BONUS = 0.05"
definition CLOSE_COMPETITION_THRESHOLD :: real where
  "CLOSE_COMPETITION_THRESHOLD = double 0.05"
definition MIN_HOURLY_EXPLORATION :: nat where "MIN_HOURLY_EXPLORATION = 2"


text \<open>The three filters of \<open>selectProtocol\<close>, in the order of the source.\<close>

definition untried :: "AppData \<Rightarrow> Protocol list \<Rightarrow> Protocol list" where
  "untried data candidates =
     filter (\<lambda>p. case models data (protocol_id p) of
                   None \<Rightarrow> True
                 | Some model \<Rightarrow> trials model = 0) candidates"

definition undertried :: "AppData \<Rightarrow> Protocol list \<Rightarrow> Protocol list" where
  "undertried data candidates =
     filter (\<lambda>p. case models data (protocol_id p) of
                   None \<Rightarrow> False
                 | Some model \<Rightarrow>
                     if (case emaAvg model of None \<Rightarrow> False | Some e \<Rightarrow> e < -0.3) then False
                     else trials model < MIN_TRIALS_FOR_THOMPSON) candidates"

definition hourlyUndertried :: "AppData \<Rightarrow> nat \<Rightarrow> Protocol list \<Rightarrow> Protocol list" where
  "hourlyUndertried data currentHour candidates =
     filter (\<lambda>protocol. case models data (protocol_id protocol) of
                   None \<Rightarrow> False
                 | Some model \<Rightarrow>
                     if trials model = 0 then False
                     else if (case emaAvg model of None \<Rightarrow> False | Some e \<Rightarrow> e < -0.3)
                       then False
                     else (case hourlyModels model of
                             None \<Rightarrow> True
                           | Some hm \<Rightarrow>
                               (case hm currentHour of
                                  None \<Rightarrow> True
                                | Some hourlyModel \<Rightarrow>
                                    h_trials hourlyModel < MIN_HOURLY_EXPLORATION))) candidates"

text \<open>The object literal \<open>resetModel\<close> of the drift sweep; the fields it does not name
  are \<open>undefined\<close>.\<close>

definition resetModel :: "real \<Rightarrow> ProtocolModel" where
  "resetModel now =
     \<lparr>trials = 0, avg = 0, lastUsedISO = None, lastDelta = None, medDuration = None,
      hourlyPerformance = None, emaAvg = Some 0,
      alphaParam = Some 1.5, betaParam = Some 1.0,
      hourlyModels = None, recentVariance = Some 0, lastResetTimestamp = Some now,
      windowScores = Some []\<rparr>"

text \<open>The drift sweep: the loop over the candidates that replaces the model of every
  drifting candidate and calls \<open>saveData\<close>. The state it returns is both the \<open>data\<close> that
  the rest of the call reads and the state that is stored.\<close>

fun driftSweep :: "real \<Rightarrow> Protocol list \<Rightarrow> AppData \<Rightarrow> AppData" where
  "driftSweep now [] data = data"
| "driftSweep now (protocol # candidates) data =
     driftSweep now candidates
       (case models data (protocol_id protocol) of
          None \<Rightarrow> data
        | Some model \<Rightarrow>
            (case (recentVariance model, lastResetTimestamp model) of
               (Some v, Some t) \<Rightarrow>
                 if shouldResetDueToDrift now v (Some t)
                 then data\<lparr>models := (models data)(protocol_id protocol \<mapsto> resetModel now)\<rparr>
                 else data
             | _ \<Rightarrow> data))"

text \<open>An element of \<open>allProtocolStats\<close> (source fields \<open>protocol\<close>, \<open>model\<close>, \<open>mean\<close>,
  \<open>variance\<close>, \<open>trials\<close>). The mean is the double that \<open>betaMean\<close> returns in the code. The
  comparator \<open>b.mean - a.mean\<close> of the sort has the sign of the exact difference, because
  the difference of two distinct doubles does not round to zero, so the sort is the stable
  sort by the mean, largest first. The variance decides nothing here and is left exact.\<close>

record ProtocolStats =
  stat_protocol :: Protocol
  stat_model :: ProtocolModel
  stat_mean :: real
  stat_variance :: real
  stat_trials :: nat

definition allProtocolStats :: "AppData \<Rightarrow> Protocol list \<Rightarrow> ProtocolStats list" where
  "allProtocolStats data candidates =
     sortDesc stat_mean
       (List.map_filter (\<lambda>p. case models data (protocol_id p) of
            None \<Rightarrow> None
          | Some model \<Rightarrow>
              if trials model = 0 then None
              else (let a = orElse (alphaParam model) 1.5;
                        b = orElse (betaParam model) 1.0;
                        mean = betaMean64 a b;
                        variance = posteriorVariance a b
                    in Some \<lparr>stat_protocol = p, stat_model = model, stat_mean = mean,
                             stat_variance = variance, stat_trials = trials model\<rparr>))
          candidates)"

definition isCloseCompetition :: "ProtocolStats list \<Rightarrow> bool" where
  "isCloseCompetition stats =
     (length stats \<ge> 2
      \<and> stat_trials (stats ! 0) \<ge> 20
      \<and> stat_trials (stats ! 1) \<ge> 20
      \<and> double (stat_mean (stats ! 0) - stat_mean (stats ! 1)) < CLOSE_COMPETITION_THRESHOLD)"

definition protocolsForEnsemble :: "AppData \<Rightarrow> Protocol list \<Rightarrow> EnsembleProtocol list" where
  "protocolsForEnsemble data candidates =
     map (\<lambda>protocol.
            (let model = models data (protocol_id protocol)
             in \<lparr>e_id = protocol_id protocol, e_name = name protocol,
                 e_alpha = orElse (Option.bind model alphaParam) 1.5,
                 e_beta = orElse (Option.bind model betaParam) 1.0,
                 e_trials = (case model of None \<Rightarrow> 0 | Some m \<Rightarrow> trials m)\<rparr>)) candidates"

definition ensembleWeights :: EnsembleWeights where
  "ensembleWeights =
     \<lparr>w_thompson = 0.35, w_ucb = 0.25, w_epsilonGreedy = 0.25, w_softmax = 0.15\<rparr>"

text \<open>\<open>data.models[p.id]?.medDuration || p.baseSeconds\<close>: the dose returned by the last
  two branches.\<close>

definition learnedDuration :: "AppData \<Rightarrow> Protocol \<Rightarrow> real" where
  "learnedDuration data p =
     (let bestModel = models data (protocol_id p)
      in orElse (Option.bind bestModel medDuration) (baseSeconds p))"

text \<open>The score that the loop of the standard branch gives to a candidate: a candidate
  with fewer than two trials draws \<open>Math.random()\<close>, the others draw from their
  posterior.\<close>

definition candidateScore :: "AppData \<Rightarrow> Protocol \<Rightarrow> rng \<Rightarrow> (real \<times> rng) option" where
  "candidateScore data p rnd =
     (case models data (protocol_id p) of
        None \<Rightarrow> Some (rnd 0 + EXPLORATION_BONUS, advance 1 rnd)
      | Some model \<Rightarrow>
          if trials model < MIN_TRIALS_FOR_THOMPSON
          then Some (rnd 0 + EXPLORATION_BONUS, advance 1 rnd)
          else (let a = orElse (alphaParam model) 1;
                    b = orElse (betaParam model) 1
                in case sampleBeta a b rnd of
                     None \<Rightarrow> None
                   | Some (sampledValue, rnd1) \<Rightarrow>
                       (let contextBonus = 0;
                            variance = posteriorVariance a b;
                            uncertaintyBonus = sqrt variance * EXPLORATION_BONUS
                        in Some (sampledValue + contextBonus + uncertaintyBonus, rnd1))))"

text \<open>The loop itself. \<open>bestScore\<close> starts at \<open>-Infinity\<close>, which is \<open>None\<close> here.\<close>

fun thompsonLoop ::
  "AppData \<Rightarrow> Protocol list \<Rightarrow> rng \<Rightarrow> Protocol \<times> real option
     \<Rightarrow> (Protocol \<times> real option) option" where
  "thompsonLoop data [] rnd best = Some best"
| "thompsonLoop data (p # candidates) rnd (bestProtocol, bestScore) =
     (case candidateScore data p rnd of
        None \<Rightarrow> None
      | Some (score, rnd1) \<Rightarrow>
          thompsonLoop data candidates rnd1
            (if (case bestScore of None \<Rightarrow> True | Some b \<Rightarrow> score > b)
             then (p, Some score) else (bestProtocol, bestScore)))"

text \<open>Which \<open>return\<close> statement of \<open>selectProtocol\<close> produced the result; each is announced
  by its own log line in the source.\<close>

datatype Phase =
  ExploringUntried | BuildingData | HourlyExploration | EnsembleVoting | StandardSelection

record Selection =
  protocol :: Protocol
  duration :: real

text \<open>What a call of \<open>selectProtocol\<close> leaves behind: the value it returns, the return
  statement that produced it, and the stored state after the call.\<close>

record Outcome =
  selection :: Selection
  phase :: Phase
  stored :: AppData

text \<open>
  \<open>selectProtocol\<close>. The stored state \<open>data0\<close> is what \<open>loadData()\<close> returns. The calls of
  \<open>getExplorationRecommendation\<close> in the last two branches only feed \<open>console.log\<close> and are
  left out. \<open>Inl TypeError\<close> is the exception of dereferencing \<open>undefined\<close>.
\<close>

definition selectProtocol ::
  "Goal \<Rightarrow> Clock \<Rightarrow> rng \<Rightarrow> AppData \<Rightarrow> (error + Outcome) option" where
  "selectProtocol g clk rnd data0 =
     (let candidates = getProtocolsByGoal g;
          data = data0
      in if untried data candidates \<noteq> []
         then Some (case pickRandom (rnd 0) (untried data candidates) of
                 Inl e \<Rightarrow> Inl e
               | Inr p \<Rightarrow> Inr \<lparr>selection = \<lparr>protocol = p, duration = baseSeconds p\<rparr>,
                                phase = ExploringUntried, stored = data0\<rparr>)
         else if undertried data candidates \<noteq> []
         then Some (case pickRandom (rnd 0) (undertried data candidates) of
                 Inl e \<Rightarrow> Inl e
               | Inr p \<Rightarrow> Inr \<lparr>selection = \<lparr>protocol = p, duration = baseSeconds p\<rparr>,
                                phase = BuildingData, stored = data0\<rparr>)
         else if hourlyUndertried data (hourOfDay clk) candidates \<noteq> []
         then Some (case pickRandom (rnd 0)
                          (hourlyUndertried data (hourOfDay clk) candidates) of
                 Inl e \<Rightarrow> Inl e
               | Inr p \<Rightarrow> Inr \<lparr>selection = \<lparr>protocol = p, duration = baseSeconds p\<rparr>,
                                phase = HourlyExploration, stored = data0\<rparr>)
         else
           (let data = driftSweep (nowMs clk) candidates data;
                stats = allProtocolStats data candidates
            in if isCloseCompetition stats
               then
                 (let forEnsemble = protocolsForEnsemble data candidates;
                      totalTrials = sum_list (map e_trials forEnsemble)
                  in case ensembleVoting forEnsemble totalTrials ensembleWeights rnd of
                       None \<Rightarrow> None
                     | Some (Inl e) \<Rightarrow> Some (Inl e)
                     | Some (Inr ensembleResult) \<Rightarrow>
                         Some
                          (case find (\<lambda>p. protocol_id p = selectedProtocolId ensembleResult)
                                 candidates of
                             None \<Rightarrow> Inl TypeError
                           | Some selectedProtocol \<Rightarrow>
                               Inr \<lparr>selection = \<lparr>protocol = selectedProtocol,
                                        duration = learnedDuration data selectedProtocol\<rparr>,
                                    phase = EnsembleVoting, stored = data\<rparr>))
               else
                 (case candidates of
                    [] \<Rightarrow> Some (Inl TypeError)
                  | first # others \<Rightarrow>
                      (case thompsonLoop data candidates rnd (first, None) of
                         None \<Rightarrow> None
                       | Some (bestProtocol, bestScore) \<Rightarrow>
                           Some (Inr \<lparr>selection = \<lparr>protocol = bestProtocol,
                                          duration = learnedDuration data bestProtocol\<rparr>,
                                      phase = StandardSelection, stored = data\<rparr>)))))"

section \<open>Predicates used in the statements\<close>

text \<open>Every value of the random source lies in \<open>[0, 1)\<close>, as the values of
  \<open>Math.random()\<close> do.\<close>

definition unitSource :: "rng \<Rightarrow> bool" where
  "unitSource rnd = (\<forall>i. 0 \<le> rnd i \<and> rnd i < 1)"

text \<open>The source does not contain the value 0, and the rejection loops of the sampler
  end, wherever in the source and for whatever parameters \<open>sampleBeta\<close> is called.\<close>

definition samplerReturns :: "rng \<Rightarrow> bool" where
  "samplerReturns rnd =
     ((\<forall>i. rnd i \<noteq> 0) \<and> (\<forall>a b k. sampleBeta a b (advance k rnd) \<noteq> None))"

text \<open>The stored posterior parameters of a model, where present, are at least 1.\<close>

definition posteriorOK :: "ProtocolModel \<Rightarrow> bool" where
  "posteriorOK m =
     ((case alphaParam m of None \<Rightarrow> True | Some a \<Rightarrow> 1 \<le> a)
      \<and> (case betaParam m of None \<Rightarrow> True | Some b \<Rightarrow> 1 \<le> b))"

definition posteriorsOK :: "AppData \<Rightarrow> bool" where
  "posteriorsOK data = (\<forall>pid m. models data pid = Some m \<longrightarrow> posteriorOK m)"


text \<open>An argument of \<open>calculateEVPI\<close>: a double between \<open>2 powi (-300)\<close> and \<open>2 ^ 300\<close>. In
  this range no operation of \<open>betaVariance\<close> overflows, and no product in it underflows, so
  that no division is by zero.\<close>

definition posteriorParam :: "real \<Rightarrow> bool" where
  "posteriorParam x = (double x = x \<and> 2 powi (- 300) \<le> x \<and> x \<le> 2 ^ 300)"



text \<open>The summed weighted confidence that a list of votes gives to a protocol.\<close>

definition weightedTotal :: "EnsembleWeights \<Rightarrow> AlgorithmVote list \<Rightarrow> string \<Rightarrow> real" where
  "weightedTotal weights vs pid =
     sum_list (map (\<lambda>v. weightOf weights (vote_algorithm v) * vote_confidence v)
                 (filter (\<lambda>v. vote_protocolId v = pid) vs))"

text \<open>The test of the drift sweep on the stored model of a candidate.\<close>

definition drifting :: "real \<Rightarrow> AppData \<Rightarrow> string \<Rightarrow> bool" where
  "drifting now data pid =
     (case models data pid of
        None \<Rightarrow> False
      | Some model \<Rightarrow>
          (case (recentVariance model, lastResetTimestamp model) of
             (Some v, Some t) \<Rightarrow> shouldResetDueToDrift now v (Some t)
           | _ \<Rightarrow> False))"

section \<open>Scenarios\<close>

definition boxBreathing :: Protocol where
  "boxBreathing = \<lparr>protocol_id = ''box-breathing'', name = ''Box Breathing 4-4-4-4'',
       supports = [Calm, Focus, PreSleep], baseSeconds = 120\<rparr>"

definition eyeBreak :: Protocol where
  "eyeBreak = \<lparr>protocol_id = ''eye-break'', name = ''20-20-20 Eye Break'',
       supports = [Focus, Calm], baseSeconds = 60\<rparr>"

definition alternateNostril :: Protocol where
  "alternateNostril = \<lparr>protocol_id = ''alternate-nostril'', name = ''Alternate Nostril'',
       supports = [Calm, Focus], baseSeconds = 90\<rparr>"

definition noon :: Clock where
  "noon = \<lparr>nowMs = 1700000000000, hourOfDay = 12, isoString = ''2023-11-14T22:13:20.000Z''\<rparr>"

definition tenOClock :: Clock where
  "tenOClock =
     \<lparr>nowMs = 1700003600000, hourOfDay = 10, isoString = ''2023-11-14T23:13:20.000Z''\<rparr>"

text \<open>The model of a protocol after \<open>n\<close> sessions at hour \<open>h\<close> and dose \<open>d\<close>, all rated
  "same" (an even \<open>n\<close>): every rating adds 0.5 to both parameters.\<close>

definition sameRated :: "nat \<Rightarrow> nat \<Rightarrow> real \<Rightarrow> ProtocolModel" where
  "sameRated n h d =
     \<lparr>trials = n, avg = 0, lastUsedISO = Some ''2023-11-14T21:13:20.000Z'',
      lastDelta = Some 0, medDuration = Some d,
      hourlyPerformance = Some [h \<mapsto> \<lparr>hp_sum = 0, hp_count = n\<rparr>],
      emaAvg = Some 0,
      alphaParam = Some (1 + real n / 2), betaParam = Some (1 + real n / 2),
      hourlyModels = Some [h \<mapsto> \<lparr>h_trials = n, h_alpha = 1 + real n / 2,
                                 h_beta = 1 + real n / 2, h_avg = 0.5\<rparr>],
      recentVariance = Some 0, lastResetTimestamp = None,
      windowScores = Some (replicate (min n 5) 0)\<rparr>"

text \<open>A model that \<open>updateModel\<close> soft-reset at time \<open>t\<close> and that has not been rated
  since: the variance that triggered the reset is still stored.\<close>

definition softResetAt :: "real \<Rightarrow> nat \<Rightarrow> ProtocolModel" where
  "softResetAt t h =
     \<lparr>trials = 6, avg = 0, lastUsedISO = Some ''2023-11-14T22:13:20.000Z'',
      lastDelta = Some 1, medDuration = Some 100,
      hourlyPerformance = Some [h \<mapsto> \<lparr>hp_sum = 0, hp_count = 6\<rparr>],
      emaAvg = Some 0,
      alphaParam = Some 1.5, betaParam = Some 1.5,
      hourlyModels = Some [h \<mapsto> \<lparr>h_trials = 6, h_alpha = 4, h_beta = 4, h_avg = 0.5\<rparr>],
      recentVariance = Some 0.96, lastResetTimestamp = Some t,
      windowScores = Some []\<rparr>"


text \<open>Four stored states for the goal "focus", whose candidates are box breathing, the eye
  break and alternate nostril breathing, in this order.\<close>

text \<open>Box breathing and the eye break were always used at ten o'clock, alternate nostril
  breathing always at nine.\<close>

definition hourlyGapState :: AppData where
  "hourlyGapState =
     \<lparr>models = [''box-breathing'' \<mapsto> sameRated 30 10 120,
                 ''eye-break'' \<mapsto> sameRated 30 10 60,
                 ''alternate-nostril'' \<mapsto> sameRated 30 9 90],
      history = [], streak = 0\<rparr>"

text \<open>Box breathing was soft-reset an hour before \<open>tenOClock\<close>.\<close>

definition driftState :: AppData where
  "driftState =
     \<lparr>models = [''box-breathing'' \<mapsto> softResetAt 1700000000000 10,
                 ''eye-break'' \<mapsto> sameRated 6 10 60,
                 ''alternate-nostril'' \<mapsto> sameRated 6 10 90],
      history = [], streak = 0\<rparr>"

text \<open>All three candidates have thirty sessions at ten o'clock.\<close>

definition closeState :: AppData where
  "closeState =
     \<lparr>models = [''box-breathing'' \<mapsto> sameRated 30 10 120,
                 ''eye-break'' \<mapsto> sameRated 30 10 60,
                 ''alternate-nostril'' \<mapsto> sameRated 30 10 90],
      history = [], streak = 0\<rparr>"


text \<open>The random source whose values are all 0.25. The normal value drawn from it is 0
  (the cosine of a quarter turn), which the sampler accepts at once.\<close>

definition quarter :: rng where
  "quarter = (\<lambda>i. 1 / 4)"

section \<open>Properties of double precision\<close>

subsection \<open>Rounding to the nearest integer\<close>

lemma roundEven_int [simp]: "roundEven (of_int n) = n"
  by (simp add: roundEven_def)

lemma roundEven_near:
  assumes "\<bar>r - of_int n\<bar> < 1 / 2"
  shows "roundEven r = n"
proof (cases "of_int n \<le> r")
  case True
  then have f: "\<lfloor>r\<rfloor> = n" using assms by (intro floor_unique) auto
  show ?thesis using assms True by (simp add: roundEven_def f)
next
  case False
  then have f: "\<lfloor>r\<rfloor> = n - 1" using assms by (intro floor_unique) auto
  show ?thesis using assms False by (simp add: roundEven_def f)
qed

lemma roundEven_bounds: "\<lfloor>r\<rfloor> \<le> roundEven r" "roundEven r \<le> \<lfloor>r\<rfloor> + 1"
  by (simp_all add: roundEven_def Let_def)

lemma roundEven_mono:
  assumes "r \<le> s"
  shows "roundEven r \<le> roundEven s"
proof (cases "\<lfloor>r\<rfloor> = \<lfloor>s\<rfloor>")
  case True
  then show ?thesis using assms by (auto simp: roundEven_def Let_def)
next
  case False
  then have "\<lfloor>r\<rfloor> < \<lfloor>s\<rfloor>" using floor_mono[OF assms] by linarith
  then show ?thesis using roundEven_bounds(2)[of r] roundEven_bounds(1)[of s] by linarith
qed

lemma roundEven_minus: "roundEven (- r) = - roundEven r"
proof (cases "r = of_int \<lfloor>r\<rfloor>")
  case True
  then obtain n where "r = of_int n" by metis
  then show ?thesis by (simp flip: of_int_minus)
next
  case False
  then have lt: "of_int \<lfloor>r\<rfloor> < r" using of_int_floor_le[of r] by linarith
  have "\<lfloor>- r\<rfloor> = - \<lfloor>r\<rfloor> - 1"
    using lt by (intro floor_unique) (auto, linarith)
  then show ?thesis using lt by (auto simp: roundEven_def Let_def)
qed

lemma roundEven_le: "r \<le> of_int n \<Longrightarrow> roundEven r \<le> n"
  using roundEven_mono[of r "of_int n"] by simp

lemma roundEven_ge: "of_int n \<le> r \<Longrightarrow> n \<le> roundEven r"
  using roundEven_mono[of "of_int n" r] by simp

subsection \<open>The binade of a number\<close>

lemma powr_two_int: "(2::real) powr real_of_int k = 2 powi k"
  by (simp add: powr_real_of_int')

lemma floor_log2_iff:
  assumes "0 < x"
  shows "\<lfloor>log 2 x\<rfloor> = e \<longleftrightarrow> 2 powi e \<le> x \<and> x < 2 powi (e + 1)"
proof -
  have "\<lfloor>log 2 x\<rfloor> = e \<longleftrightarrow>
      2 powr real_of_int e \<le> x \<and> x < 2 powr real_of_int (e + 1)"
    by (rule floor_log_eq_powr_iff[OF assms]) simp
  then show ?thesis by (simp only: powr_two_int)
qed

lemma floor_log2:
  assumes "2 powi e \<le> x" "x < 2 powi (e + 1)"
  shows "\<lfloor>log 2 x\<rfloor> = e"
proof -
  have "0 < (2::real) powi e" by simp
  then have p: "0 < x" using assms(1) by linarith
  show ?thesis using assms floor_log2_iff[OF p] by blast
qed

lemma floor_log2_bounds:
  assumes "0 < x"
  shows "2 powi \<lfloor>log 2 x\<rfloor> \<le> x" "x < 2 powi (\<lfloor>log 2 x\<rfloor> + 1)"
  using floor_log2_iff[OF assms, of "\<lfloor>log 2 x\<rfloor>"] by simp_all

lemma quantum_minus [simp]: "quantum (- x) = quantum x"
  by (simp add: quantum_def)

subsection \<open>Rounding to the nearest double\<close>

lemma double_0 [simp]: "double 0 = 0"
  by (simp add: double_def)

lemma double_minus: "double (- x) = - double x"
  by (simp add: double_def roundEven_minus)

lemma double_nonneg: "0 \<le> x \<Longrightarrow> 0 \<le> double x"
  using roundEven_ge[of 0 "x / 2 powi quantum x"] by (simp add: double_def)

lemma double_nonpos: "x \<le> 0 \<Longrightarrow> double x \<le> 0"
  using double_nonneg[of "- x"] by (simp add: double_minus)

lemma quantum_eq:
  assumes "2 powi e \<le> \<bar>x\<bar>" "\<bar>x\<bar> < 2 powi (e + 1)"
  shows "quantum x = max (e - 52) (- 1074)"
  using floor_log2[OF assms] by (simp add: quantum_def)

lemma double_eqI:
  assumes "2 powi e \<le> \<bar>x\<bar>" "\<bar>x\<bar> < 2 powi (e + 1)" "- 1022 \<le> e"
    and "\<bar>x / 2 powi (e - 52) - of_int n\<bar> < 1 / 2"
  shows "double x = of_int n * 2 powi (e - 52)"
proof -
  have q: "quantum x = e - 52" using quantum_eq[OF assms(1,2)] assms(3) by simp
  have "0 < (2::real) powi e" by simp
  with assms(1) have "0 < \<bar>x\<bar>" by linarith
  then have "x \<noteq> 0" by simp
  then show ?thesis by (simp add: double_def q roundEven_near[OF assms(4)])
qed

lemma power_int_diff_of_nat:
  assumes "q \<le> j"
  shows "(2::real) powi j / 2 powi q = of_int (2 ^ nat (j - q))"
proof -
  have "(2::real) powi j = 2 powi (q + (j - q))" by simp
  also have "\<dots> = 2 powi q * 2 powi (j - q)" by (subst power_int_add) simp_all
  also have "2 powi (j - q) = (2::real) ^ nat (j - q)"
    using assms by (simp add: power_int_def)
  finally show ?thesis by simp
qed

text \<open>An integer of at most 53 bits times a power of two is a double.\<close>

lemma double_representable:
  assumes "\<bar>k\<bar> < 2 ^ 53" "- 1074 \<le> j"
  shows "double (of_int k * 2 powi j) = of_int k * 2 powi j"
proof (cases "k = 0")
  case True
  then show ?thesis by simp
next
  case False
  let ?x = "of_int k * (2::real) powi j"
  have x0: "?x \<noteq> 0" using False by simp
  have ax: "\<bar>?x\<bar> = of_int \<bar>k\<bar> * 2 powi j" by (simp add: abs_mult)
  have pos: "0 < \<bar>?x\<bar>" using x0 by simp
  define e where "e = \<lfloor>log 2 \<bar>?x\<bar>\<rfloor>"
  have lo: "2 powi e \<le> \<bar>?x\<bar>" unfolding e_def by (rule floor_log2_bounds(1)[OF pos])
  have "real_of_int \<bar>k\<bar> < 2 ^ 53" using assms(1) by (metis of_int_less_numeral_power_cancel_iff)
  then have "\<bar>?x\<bar> < 2 ^ 53 * 2 powi j" unfolding ax by (intro mult_strict_right_mono) simp_all
  also have "\<dots> = 2 powi (53 + j)" by (subst power_int_add) simp_all
  finally have "2 powi e < (2::real) powi (53 + j)" using lo by linarith
  have "e < 53 + j"
  proof (rule ccontr)
    assume "\<not> e < 53 + j"
    then have "(2::real) powi (53 + j) \<le> 2 powi e" by (intro power_int_increasing) simp_all
    with \<open>2 powi e < (2::real) powi (53 + j)\<close> show False by linarith
  qed
  then have qj: "quantum ?x \<le> j" using assms(2) by (simp add: quantum_def e_def)
  have "?x / 2 powi quantum ?x = of_int k * ((2::real) powi j / 2 powi quantum ?x)" by simp
  also have "\<dots> = of_int (k * 2 ^ nat (j - quantum ?x))"
    by (simp add: power_int_diff_of_nat[OF qj])
  finally have r: "roundEven (?x / 2 powi quantum ?x) = k * 2 ^ nat (j - quantum ?x)"
    by (simp only: roundEven_int)
  have "double ?x = of_int (k * 2 ^ nat (j - quantum ?x)) * 2 powi quantum ?x"
    using x0 by (simp only: double_def r if_False)
  also have "\<dots> = of_int k * (of_int (2 ^ nat (j - quantum ?x)) * 2 powi quantum ?x)" by simp
  also have "of_int (2 ^ nat (j - quantum ?x)) * 2 powi quantum ?x = (2::real) powi j"
    using power_int_diff_of_nat[OF qj] by (simp add: field_simps)
  finally show ?thesis .
qed

lemma double_mono_pos:
  assumes "0 < x" "x \<le> y"
  shows "double x \<le> double y"
proof -
  have y: "0 < y" using assms by linarith
  define ex where "ex = \<lfloor>log 2 x\<rfloor>"
  define ey where "ey = \<lfloor>log 2 y\<rfloor>"
  have exy: "ex \<le> ey" unfolding ex_def ey_def
    using assms y by (intro floor_mono) (simp add: log_le_cancel_iff)
  have qx: "quantum x = max (ex - 52) (- 1074)" using assms(1) by (simp add: quantum_def ex_def)
  have qy: "quantum y = max (ey - 52) (- 1074)" using y by (simp add: quantum_def ey_def)
  have qxy: "quantum x \<le> quantum y" using exy by (simp add: qx qy)
  show ?thesis
  proof (cases "quantum x = quantum y")
    case True
    have "x / 2 powi quantum y \<le> y / 2 powi quantum y"
      using assms(2) by (simp add: divide_right_mono)
    then have "roundEven (x / 2 powi quantum y) \<le> roundEven (y / 2 powi quantum y)"
      by (rule roundEven_mono)
    then have "of_int (roundEven (x / 2 powi quantum y)) * 2 powi quantum y
        \<le> of_int (roundEven (y / 2 powi quantum y)) * (2::real) powi quantum y"
      by (intro mult_right_mono) simp_all
    then show ?thesis using assms(1) y by (simp add: double_def True)
  next
    case False
    then have lt: "quantum x < quantum y" using qxy by simp
    then have qy': "quantum y = ey - 52" unfolding qx qy by linarith
    have exlt: "ex < ey" using lt unfolding qx qy by linarith
    let ?B = "(2::real) powi ey"
    have By: "?B \<le> y" unfolding ey_def by (rule floor_log2_bounds(1)[OF y])
    have "x < 2 powi (ex + 1)" unfolding ex_def by (rule floor_log2_bounds(2)[OF assms(1)])
    also have "\<dots> \<le> ?B" using exlt by (intro power_int_increasing) simp_all
    finally have xB: "x \<le> ?B" by simp
    have qxe: "quantum x \<le> ey" using lt qy' by linarith
    have "x / 2 powi quantum x \<le> ?B / 2 powi quantum x"
      using xB by (simp add: divide_right_mono)
    also have "\<dots> = of_int (2 ^ nat (ey - quantum x))" by (rule power_int_diff_of_nat[OF qxe])
    finally have "roundEven (x / 2 powi quantum x) \<le> 2 ^ nat (ey - quantum x)"
      by (rule roundEven_le)
    then have "of_int (roundEven (x / 2 powi quantum x)) * 2 powi quantum x
        \<le> of_int (2 ^ nat (ey - quantum x)) * (2::real) powi quantum x"
      by (intro mult_right_mono) simp_all
    also have "\<dots> = ?B" using power_int_diff_of_nat[OF qxe] by (simp add: field_simps)
    finally have dx: "double x \<le> ?B" using assms(1) by (simp add: double_def)
    have qye: "quantum y \<le> ey" using qy' by simp
    have "of_int (2 ^ nat (ey - quantum y)) = ?B / 2 powi quantum y"
      by (rule power_int_diff_of_nat[OF qye, symmetric])
    also have "\<dots> \<le> y / 2 powi quantum y" using By by (simp add: divide_right_mono)
    finally have "2 ^ nat (ey - quantum y) \<le> roundEven (y / 2 powi quantum y)"
      by (rule roundEven_ge)
    then have ge: "real_of_int (2 ^ nat (ey - quantum y)) * (2::real) powi quantum y
        \<le> real_of_int (roundEven (y / 2 powi quantum y)) * 2 powi quantum y"
      by (intro mult_right_mono) simp_all
    have "?B = real_of_int (2 ^ nat (ey - quantum y)) * (2::real) powi quantum y"
      using power_int_diff_of_nat[OF qye] by (simp add: field_simps)
    also note ge
    also have "real_of_int (roundEven (y / 2 powi quantum y)) * 2 powi quantum y = double y"
      using y by (simp add: double_def)
    finally have "?B \<le> double y" .
    with dx show ?thesis by linarith
  qed
qed

lemma double_mono:
  assumes "x \<le> y"
  shows "double x \<le> double y"
proof -
  consider "0 < x" | "x \<le> 0" "0 \<le> y" | "y < 0" by linarith
  then show ?thesis
  proof cases
    case 1
    then show ?thesis using assms by (rule double_mono_pos)
  next
    case 2
    then show ?thesis using double_nonpos[of x] double_nonneg[of y] by linarith
  next
    case 3
    then have "double (- y) \<le> double (- x)" using assms by (intro double_mono_pos) simp_all
    then show ?thesis by (simp add: double_minus)
  qed
qed

text \<open>How a rounding is evaluated: the binade of the exact value, and the integer that its
  significand rounds to.\<close>

lemma double_evalI:
  assumes "2 powi e \<le> \<bar>x\<bar>" "\<bar>x\<bar> < 2 powi (e + 1)" "- 1022 \<le> e"
    and "roundEven (x / 2 powi (e - 52)) = n"
  shows "double x = of_int n * 2 powi (e - 52)"
proof -
  have q: "quantum x = e - 52" using quantum_eq[OF assms(1,2)] assms(3) by simp
  have "0 < (2::real) powi e" by simp
  with assms(1) have "0 < \<bar>x\<bar>" by linarith
  then have "x \<noteq> 0" by simp
  then show ?thesis by (simp add: double_def q assms(4))
qed

text \<open>The same for a square root: the double whose two neighbouring midpoints enclose the
  root.\<close>

lemma double_sqrtI:
  assumes e: "- 1022 \<le> e" and n: "1 \<le> n"
    and lo: "(2 powi e)\<^sup>2 \<le> v" and hi: "v < (2 powi (e + 1))\<^sup>2"
    and below: "((of_int n - 1 / 2) * 2 powi (e - 52))\<^sup>2 < v"
    and above: "v < ((of_int n + 1 / 2) * 2 powi (e - 52))\<^sup>2"
  shows "double (sqrt v) = of_int n * 2 powi (e - 52)"
proof -
  have v0: "0 \<le> v" using lo zero_le_power2[of "(2::real) powi e"] by linarith
  have q: "0 < (2::real) powi (e - 52)" by simp
  have a: "2 powi e \<le> \<bar>sqrt v\<bar>" using real_le_rsqrt[OF lo] v0 by simp
  have b: "\<bar>sqrt v\<bar> < 2 powi (e + 1)"
    using real_less_lsqrt[OF _ hi] v0 by simp
  have "0 \<le> (real_of_int n - 1 / 2) * 2 powi (e - 52)" using n by simp
  have l: "(of_int n - 1 / 2) * 2 powi (e - 52) < sqrt v" by (rule real_less_rsqrt[OF below])
  have "0 \<le> (real_of_int n + 1 / 2) * 2 powi (e - 52)" using n by simp
  then have u: "sqrt v < (of_int n + 1 / 2) * 2 powi (e - 52)"
    by (rule real_less_lsqrt[OF _ above])
  have "of_int n - 1 / 2 < sqrt v / 2 powi (e - 52)"
    using l q by (simp add: pos_less_divide_eq)
  moreover have "sqrt v / 2 powi (e - 52) < of_int n + 1 / 2"
    using u q by (simp add: pos_divide_less_eq)
  ultimately have c: "\<bar>sqrt v / 2 powi (e - 52) - of_int n\<bar> < 1 / 2" by linarith
  show ?thesis by (rule double_eqI[OF a b e c])
qed

lemma double_1 [simp]: "double 1 = 1"
  using double_representable[of 1 0] by simp

lemma double_half [simp]: "double (1 / 2) = 1 / 2"
  using double_representable[of 1 "-1"] by simp

section \<open>Properties of the Beta-Bernoulli primitives\<close>

text \<open>
  C7. \<open>updateBetaParams\<close> returns \<open>(alpha + reward, beta + (1 - reward))\<close>, and
  \<open>deltaToReward\<close> maps \<open>-1\<close> to \<open>0\<close>, \<open>0\<close> to \<open>0.5\<close> and \<open>1\<close> to \<open>1\<close>. Hence a "better" rating
  (reward 1) strictly increases alpha and leaves beta unchanged, a "worse" rating (reward 0)
  strictly increases beta and leaves alpha unchanged, and a "same" rating (reward 0.5)
  increases both by exactly 0.5. This holds for all parameters, in particular for
  \<open>alpha, beta > 0\<close> and a reward in \<open>[0, 1]\<close>.
\<close>

theorem updateBetaParams_conjugate:
  "updateBetaParams a b r = \<lparr>alpha = a + r, beta = b + (1 - r)\<rparr>
   \<and> deltaToReward (-1) = 0 \<and> deltaToReward 0 = 0.5 \<and> deltaToReward 1 = 1
   \<and> a < alpha (updateBetaParams a b (deltaToReward 1))
   \<and> beta (updateBetaParams a b (deltaToReward 1)) = b
   \<and> b < beta (updateBetaParams a b (deltaToReward (-1)))
   \<and> alpha (updateBetaParams a b (deltaToReward (-1))) = a
   \<and> alpha (updateBetaParams a b (deltaToReward 0)) = a + 0.5
   \<and> beta (updateBetaParams a b (deltaToReward 0)) = b + 0.5"
  by (simp add: updateBetaParams_def deltaToReward_def)

subsection \<open>The credible interval and the value of information\<close>

text \<open>The lower bound never exceeds the upper bound, also after rounding, so the first two
  branches exclude each other.\<close>

lemma betaMean64_unit:
  assumes "double a = a" "0 < a" "0 \<le> b"
  shows "0 \<le> betaMean64 a b" "betaMean64 a b \<le> 1"
proof -
  have "double a \<le> double (a + b)" using assms(3) by (intro double_mono) simp
  then have s: "a \<le> double (a + b)" by (simp only: assms(1))
  then have p: "0 < double (a + b)" using assms(2) by linarith
  have "0 \<le> a / double (a + b)" using assms(2) p by simp
  then show "0 \<le> betaMean64 a b" unfolding betaMean64_def by (rule double_nonneg)
  have "a / double (a + b) \<le> 1" using s p by simp
  then have "double (a / double (a + b)) \<le> double 1" by (rule double_mono)
  then show "betaMean64 a b \<le> 1" by (simp add: betaMean64_def)
qed

lemma betaVariance_nonneg:
  assumes "0 \<le> a" "0 \<le> b"
  shows "0 \<le> betaVariance a b"
proof -
  have s: "0 \<le> double (a + b)" using assms by (intro double_nonneg) simp
  have n: "0 \<le> double (a * b)" using assms by (intro double_nonneg) simp
  have "0 \<le> double (double (a + b) * double (a + b))" using s by (intro double_nonneg) simp
  moreover have "0 \<le> double (double (a + b) + 1)" using s by (intro double_nonneg) simp
  ultimately have
    "0 \<le> double (double (double (a + b) * double (a + b)) * double (double (a + b) + 1))"
    by (intro double_nonneg) simp
  then have "0 \<le> double (a * b)
      / double (double (double (a + b) * double (a + b)) * double (double (a + b) + 1))"
    using n by simp
  then show ?thesis unfolding betaVariance_def Let_def by (rule double_nonneg)
qed

lemma interval_ordered:
  assumes "double a = a" "0 < a" "0 \<le> b"
  shows "fst (betaCredibleInterval a b) \<le> snd (betaCredibleInterval a b)"
proof -
  define m where "m = betaMean64 a b"
  define t where "t = double (double 1.96 * double (sqrt (betaVariance a b)))"
  have m: "0 \<le> m" "m \<le> 1" using betaMean64_unit[OF assms] by (simp_all add: m_def)
  have "0 \<le> sqrt (betaVariance a b)" using betaVariance_nonneg[of a b] assms by simp
  then have "0 \<le> double (sqrt (betaVariance a b))" by (rule double_nonneg)
  moreover have "0 \<le> double 1.96" by (intro double_nonneg) simp
  ultimately have t: "0 \<le> t" unfolding t_def by (intro double_nonneg) simp
  have 1: "double (m - t) \<le> double (m + t)" using t by (intro double_mono) simp
  have "double (m - t) \<le> double 1" using m t by (intro double_mono) simp
  then have 2: "double (m - t) \<le> 1" by simp
  have "double 0 \<le> double (m + t)" using m t by (intro double_mono) simp
  then have 3: "0 \<le> double (m + t)" by simp
  have "betaCredibleInterval a b = (max 0 (double (m - t)), min 1 (double (m + t)))"
    by (simp add: betaCredibleInterval_def Let_def m_def t_def)
  then show ?thesis using 1 2 3 by simp
qed

text \<open>
  C10. For \<open>alpha, beta > 0\<close> and any \<open>currentBestMean\<close>, \<open>calculateEVPI\<close> returns \<open>0\<close> when
  the upper bound of the 95% interval is more than 0.05 below \<open>currentBestMean\<close>, returns
  \<open>(lowerBound - currentBestMean) * 10\<close> when the lower bound exceeds
  \<open>currentBestMean + 0.05\<close>, and otherwise returns
  \<open>max 0 (mean - currentBestMean) + sqrt variance * 5\<close>. The bounds, the mean, the variance
  and every sum, difference and product are the numbers that the code computes, in double
  precision. The parameters are doubles between \<open>2 powi (-300)\<close> and \<open>2 ^ 300\<close> and the best
  mean is at most \<open>2 ^ 1000\<close> in absolute value, so that nothing overflows.
\<close>

theorem calculateEVPI_cases:
  assumes "posteriorParam a" "posteriorParam b" "\<bar>best\<bar> \<le> 2 ^ 1000"
  shows "(snd (betaCredibleInterval a b) < double (best - double 0.05) \<longrightarrow>
            calculateEVPI a b best = 0)
       \<and> (fst (betaCredibleInterval a b) > double (best + double 0.05) \<longrightarrow>
            calculateEVPI a b best =
              double (double (fst (betaCredibleInterval a b) - best) * 10))
       \<and> (\<not> snd (betaCredibleInterval a b) < double (best - double 0.05)
            \<and> \<not> fst (betaCredibleInterval a b) > double (best + double 0.05) \<longrightarrow>
            calculateEVPI a b best =
              double (max 0 (double (betaMean64 a b - best))
                      + double (double (sqrt (betaVariance a b)) * 5)))"
proof -
  obtain lo hi where lh: "betaCredibleInterval a b = (lo, hi)"
    by (cases "betaCredibleInterval a b")
  have a: "double a = a" "0 < a" using assms(1) by (simp_all add: posteriorParam_def)
  have "(0::real) < 2 powi (- 300)" by simp
  then have b: "0 \<le> b" using assms(2) unfolding posteriorParam_def by linarith
  have ord: "lo \<le> hi" using interval_ordered[OF a b] lh by simp
  have "0 \<le> double 0.05" by (intro double_nonneg) simp
  then have "double (best - double 0.05) \<le> double (best + double 0.05)"
    by (intro double_mono) simp
  with ord have "\<not> (hi < double (best - double 0.05) \<and> lo > double (best + double 0.05))"
    by linarith
  then show ?thesis
    by (auto simp: calculateEVPI_def Let_def lh)
qed

lemma sqrt_36th: "sqrt (1 / 36) = 1 / 6"
  by (rule real_sqrt_unique) (simp_all add: power2_eq_square)

subsection \<open>The branches at Beta(39, 12)\<close>

lemma posteriorParam_39_12: "posteriorParam 39" "posteriorParam 12"
  using double_representable[of 39 0] double_representable[of 12 0]
  by (simp_all add: posteriorParam_def)

lemma betaMean64_39_12: "betaMean64 39 12 = 860982281703183 / 1125899906842624"
proof -
  have s: "double (39 + 12) = 51"
    using double_representable[of 51 0] by simp
  have m: "double (39 / 51) = 860982281703183 / 1125899906842624"
    using double_evalI[of "- 1" "39 / 51" 6887858253625464]
    by (simp add: roundEven_def Let_def)
  show ?thesis unfolding betaMean64_def s by (rule m)
qed

lemma betaVariance_39_12: "betaVariance 39 12 = 3989347766805699 / 1152921504606846976"
proof -
  have s: "double (39 + 12) = 51"
    using double_representable[of 51 0] by simp
  have ab: "double (39 * 12) = 468"
    using double_representable[of 117 2] by simp
  have ss: "double (51 * 51) = 2601"
    using double_representable[of 2601 0] by simp
  have s1: "double (51 + 1) = 52"
    using double_representable[of 13 2] by simp
  have den: "double (2601 * 52) = 135252"
    using double_representable[of 33813 2] by simp
  have q: "double (468 / 135252) = 3989347766805699 / 1152921504606846976"
    using double_evalI[of "- 9" "468 / 135252" 7978695533611398]
    by (simp add: roundEven_def Let_def)
  show ?thesis unfolding betaVariance_def Let_def s ab ss s1 den by (rule q)
qed

lemma stdDev_39_12: "double (sqrt (3989347766805699 / 1152921504606846976)) = 4238682002231055 / 72057594037927936"
  using double_sqrtI[of "- 5" 8477364004462110 "3989347766805699 / 1152921504606846976"]
  by (simp add: power2_eq_square)

text \<open>The interval of Beta(39, 12) is computed as [0.6494117647058824, 0.8799999999999999];
  in exact arithmetic the upper bound would be 0.88.\<close>

lemma interval_39_12:
  "betaCredibleInterval 39 12 =
     (731172645384857 / 1125899906842624, 990791918021509 / 1125899906842624)"
proof -
  have c: "double (1.96) = 2206763817411543 / 1125899906842624"
    using double_evalI[of 0 "1.96" 8827055269646172]
    by (simp add: roundEven_def Let_def)
  have t: "double ((2206763817411543 / 1125899906842624) * (4238682002231055 / 72057594037927936)) = 2076954181093217 / 18014398509481984"
    using double_evalI[of "- 4" "(2206763817411543 / 1125899906842624) * (4238682002231055 / 72057594037927936)" 8307816724372868]
    by (simp add: roundEven_def Let_def)
  have lo: "double ((860982281703183 / 1125899906842624) - (2076954181093217 / 18014398509481984)) = 731172645384857 / 1125899906842624"
    using double_evalI[of "- 1" "(860982281703183 / 1125899906842624) - (2076954181093217 / 18014398509481984)" 5849381163078856]
    by (simp add: roundEven_def Let_def)
  have up: "double ((860982281703183 / 1125899906842624) + (2076954181093217 / 18014398509481984)) = 990791918021509 / 1125899906842624"
    using double_evalI[of "- 1" "(860982281703183 / 1125899906842624) + (2076954181093217 / 18014398509481984)" 7926335344172072]
    by (simp add: roundEven_def Let_def)
  show ?thesis
    unfolding betaCredibleInterval_def Let_def betaMean64_39_12 betaVariance_39_12
      stdDev_39_12 c t lo up
    by simp
qed

lemma double_005: "double 0.05 = 3602879701896397 / 72057594037927936"
  using double_evalI[of "- 5" "0.05" 7205759403792794]
  by (simp add: roundEven_def Let_def)

lemma double_093: "double 0.93 = 8376695306909123 / 9007199254740992"
  using double_evalI[of "- 1" "0.93" 8376695306909123]
  by (simp add: roundEven_def Let_def)

text \<open>The best mean 0.93 is the computed mean of Beta(46.5, 3.5).\<close>

lemma betaMean64_best: "betaMean64 (93 / 2) (7 / 2) = double 0.93"
proof -
  have s: "double (93 / 2 + 7 / 2) = 50"
    using double_representable[of 25 1] by simp
  have q: "double ((93 / 2) / 50) = 8376695306909123 / 9007199254740992"
    using double_evalI[of "- 1" "(93 / 2) / 50" 8376695306909123]
    by (simp add: roundEven_def Let_def)
  show ?thesis unfolding betaMean64_def s q double_093 by (rule refl)
qed

text \<open>Against the best mean 0.93 the threshold is computed as 0.88, above the upper bound.\<close>

lemma dominated_39_12:
  "snd (betaCredibleInterval 39 12) < double (double 0.93 - double 0.05)"
proof -
  have r: "double ((8376695306909123 / 9007199254740992) - (3602879701896397 / 72057594037927936)) = 7926335344172073 / 9007199254740992"
    using double_evalI[of "- 1" "(8376695306909123 / 9007199254740992) - (3602879701896397 / 72057594037927936)" 7926335344172073]
    by (simp add: roundEven_def Let_def)
  show ?thesis unfolding interval_39_12 double_093 double_005 r by simp
qed

lemma better_39_12:
  "fst (betaCredibleInterval 39 12) > double (1 / 2 + double 0.05)"
  "double (double (fst (betaCredibleInterval 39 12) - 1 / 2) * 10) = 841113459817725 / 562949953421312"
proof -
  have r: "double (1 / 2 + (3602879701896397 / 72057594037927936)) = 2476979795053773 / 4503599627370496"
    using double_evalI[of "- 1" "1 / 2 + (3602879701896397 / 72057594037927936)" 4953959590107546]
    by (simp add: roundEven_def Let_def)
  have d: "double ((731172645384857 / 1125899906842624) - 1 / 2) = 168222691963545 / 1125899906842624"
    using double_representable[of 168222691963545 "- 50"] by simp
  have v: "double ((168222691963545 / 1125899906842624) * 10) = 841113459817725 / 562949953421312"
    using double_representable[of 841113459817725 "- 49"] by simp
  show "fst (betaCredibleInterval 39 12) > double (1 / 2 + double 0.05)"
    unfolding interval_39_12 double_005 r by simp
  show "double (double (fst (betaCredibleInterval 39 12) - 1 / 2) * 10) = 841113459817725 / 562949953421312"
    unfolding interval_39_12 fst_conv d by (rule v)
qed

lemma ambiguous_39_12:
  "\<not> snd (betaCredibleInterval 39 12) < double (3 / 4 - double 0.05)"
  "\<not> fst (betaCredibleInterval 39 12) > double (3 / 4 + double 0.05)"
  "double (max 0 (double (betaMean64 39 12 - 3 / 4))
      + double (double (sqrt (betaVariance 39 12)) * 5)) = 5563270127928259 / 18014398509481984"
proof -
  have ra: "double (3 / 4 - (3602879701896397 / 72057594037927936)) = 3152519739159347 / 4503599627370496"
    using double_evalI[of "- 1" "3 / 4 - (3602879701896397 / 72057594037927936)" 6305039478318694]
    by (simp add: roundEven_def Let_def)
  have rb: "double (3 / 4 + (3602879701896397 / 72057594037927936)) = 3602879701896397 / 4503599627370496"
    using double_evalI[of "- 1" "3 / 4 + (3602879701896397 / 72057594037927936)" 7205759403792794]
    by (simp add: roundEven_def Let_def)
  have g: "double ((860982281703183 / 1125899906842624) - 3 / 4) = 16557351571215 / 1125899906842624"
    using double_representable[of 16557351571215 "- 50"] by simp
  have u: "double ((4238682002231055 / 72057594037927936) * 5) = 5298352502788819 / 18014398509481984"
    using double_evalI[of "- 2" "(4238682002231055 / 72057594037927936) * 5" 5298352502788819]
    by (simp add: roundEven_def Let_def)
  have mx: "max (0::real) (16557351571215 / 1125899906842624) = 16557351571215 / 1125899906842624" by simp
  have tot: "double ((16557351571215 / 1125899906842624) + (5298352502788819 / 18014398509481984)) = 5563270127928259 / 18014398509481984"
    using double_representable[of 5563270127928259 "- 54"] by simp
  show "\<not> snd (betaCredibleInterval 39 12) < double (3 / 4 - double 0.05)"
    unfolding interval_39_12 double_005 ra by simp
  show "\<not> fst (betaCredibleInterval 39 12) > double (3 / 4 + double 0.05)"
    unfolding interval_39_12 double_005 rb by simp
  show "double (max 0 (double (betaMean64 39 12 - 3 / 4))
      + double (double (sqrt (betaVariance 39 12)) * 5)) = 5563270127928259 / 18014398509481984"
    unfolding betaMean64_39_12 betaVariance_39_12 stdDev_39_12 g u mx by (rule tot)
qed

text \<open>The three branches at Beta(39, 12): against a best mean of 0.93 the item is dominated
  (the computed upper bound 0.8799999999999999 is below the computed threshold 0.88), against
  0.5 it is likely better, against 0.75 it is ambiguous.\<close>

theorem calculateEVPI_cases_witness:
  "posteriorParam 39 \<and> posteriorParam 12
   \<and> \<bar>double 0.93\<bar> \<le> 2 ^ 1000 \<and> \<bar>1 / 2 :: real\<bar> \<le> 2 ^ 1000 \<and> \<bar>3 / 4 :: real\<bar> \<le> 2 ^ 1000
   \<and> snd (betaCredibleInterval 39 12) < double (double 0.93 - double 0.05)
   \<and> calculateEVPI 39 12 (double 0.93) = 0
   \<and> fst (betaCredibleInterval 39 12) > double (1 / 2 + double 0.05)
   \<and> calculateEVPI 39 12 (1 / 2) = 841113459817725 / 562949953421312
   \<and> \<not> snd (betaCredibleInterval 39 12) < double (3 / 4 - double 0.05)
   \<and> \<not> fst (betaCredibleInterval 39 12) > double (3 / 4 + double 0.05)
   \<and> calculateEVPI 39 12 (3 / 4) = 5563270127928259 / 18014398509481984"
proof -
  have b1: "\<bar>double 0.93\<bar> \<le> 2 ^ 1000" unfolding double_093 by simp
  have b2: "\<bar>1 / 2 :: real\<bar> \<le> 2 ^ 1000" by simp
  have b3: "\<bar>3 / 4 :: real\<bar> \<le> 2 ^ 1000" by simp
  note p = posteriorParam_39_12
  from calculateEVPI_cases[OF p b1] dominated_39_12
  have e1: "calculateEVPI 39 12 (double 0.93) = 0" by blast
  from calculateEVPI_cases[OF p b2] better_39_12
  have e2: "calculateEVPI 39 12 (1 / 2) = 841113459817725 / 562949953421312" by simp
  from calculateEVPI_cases[OF p b3] ambiguous_39_12
  have e3: "calculateEVPI 39 12 (3 / 4) = 5563270127928259 / 18014398509481984" by simp
  from p b1 b2 b3 dominated_39_12 better_39_12(1) ambiguous_39_12(1,2) e1 e2 e3
  show ?thesis by blast
qed


section \<open>Properties of the drift detector\<close>

text \<open>
  C5 as stated asks for \<^emph>\<open>more than\<close> 3,600,000 ms since the last reset. At exactly
  3,600,000 ms the cooldown test \<open>timeSinceReset < DRIFT_COOLDOWN_MS\<close> is already false and
  the function answers \<open>true\<close>.
\<close>

theorem shouldResetDueToDrift_strict_counterexample:
  "shouldResetDueToDrift 3601000 0.5 (Some 1000)
   \<and> \<not> ((0.30::real) \<le> 0.5 \<and> (3600000::real) < 3601000 - 1000)"
  by (simp add: shouldResetDueToDrift_def truthy_def DRIFT_VARIANCE_THRESHOLD_def
      DRIFT_COOLDOWN_MS_def)

text \<open>
  C5 (amended). \<open>shouldResetDueToDrift\<close> returns \<open>true\<close> if and only if the variance is at
  least 0.30 and the last reset timestamp is undefined, is \<open>0\<close>, or lies at least 3,600,000 ms
  in the past; in particular it returns \<open>false\<close> whenever the variance is below 0.30,
  whatever the timestamp.
\<close>

theorem shouldResetDueToDrift_iff:
  "(shouldResetDueToDrift now v ts \<longleftrightarrow>
      0.30 \<le> v \<and> (case ts of None \<Rightarrow> True | Some t \<Rightarrow> t = 0 \<or> 3600000 \<le> now - t))
   \<and> (v < 0.30 \<longrightarrow> \<not> shouldResetDueToDrift now v ts)"
  by (auto simp: shouldResetDueToDrift_def truthy_def DRIFT_VARIANCE_THRESHOLD_def
      DRIFT_COOLDOWN_MS_def split: option.splits)

theorem shouldResetDueToDrift_iff_witness:
  "(0.2::real) < 0.30 \<and> \<not> shouldResetDueToDrift 7200000 0.2 None
   \<and> shouldResetDueToDrift 7200000 0.4 (Some 3600000)
   \<and> \<not> shouldResetDueToDrift 7200000 0.4 (Some 3600001)"
  using shouldResetDueToDrift_iff[of 7200000 "0.2" None]
    shouldResetDueToDrift_iff[of 7200000 "0.4" "Some 3600000"]
    shouldResetDueToDrift_iff[of 7200000 "0.4" "Some 3600001"]
  by simp

subsection \<open>Soft reset\<close>

text \<open>
  C6 as stated fails twice. At Beta(1, 1) nothing is kept and nothing is lost: the sum of the
  parameters stays 2, so it does not shrink strictly. At Beta(9, 1) the mean moves from 0.9
  to 0.7, far outside any rounding tolerance.
\<close>

theorem softResetBetaParams_shrink_counterexample:
  "\<not> alpha (softResetBetaParams 1 1) + beta (softResetBetaParams 1 1) < 1 + 1
   \<and> betaMean 9 1 = 9 / 10
   \<and> betaMean (alpha (softResetBetaParams 9 1)) (beta (softResetBetaParams 9 1)) = 7 / 10"
  by (simp add: softResetBetaParams_def Let_def betaMean_def)

lemma softReset_fields:
  "alpha (softResetBetaParams a b) = 1 + a / (a + b) * of_int \<lfloor>(a + b - 2) * 0.25\<rfloor>"
  "beta (softResetBetaParams a b) = 1 + (1 - a / (a + b)) * of_int \<lfloor>(a + b - 2) * 0.25\<rfloor>"
  by (simp_all add: softResetBetaParams_def Let_def)

lemma kept_bounds:
  fixes a b :: real
  assumes "1 \<le> a" "1 \<le> b"
  shows "0 \<le> \<lfloor>(a + b - 2) * 0.25\<rfloor>"
    and "real_of_int \<lfloor>(a + b - 2) * 0.25\<rfloor> \<le> a + b - 2"
    and "2 < a + b \<Longrightarrow> real_of_int \<lfloor>(a + b - 2) * 0.25\<rfloor> < a + b - 2"
proof -
  have t: "0 \<le> (a + b - 2) * 0.25" using assms by simp
  then show "0 \<le> \<lfloor>(a + b - 2) * 0.25\<rfloor>" by simp
  have le: "real_of_int \<lfloor>(a + b - 2) * 0.25\<rfloor> \<le> (a + b - 2) * 0.25"
    by (rule of_int_floor_le)
  show "real_of_int \<lfloor>(a + b - 2) * 0.25\<rfloor> \<le> a + b - 2" using le t by simp
  show "2 < a + b \<Longrightarrow> real_of_int \<lfloor>(a + b - 2) * 0.25\<rfloor> < a + b - 2" using le by simp
qed

text \<open>
  C6 (amended). For \<open>alpha, beta \<ge> 1\<close>, \<open>softResetBetaParams\<close> returns
  \<open>alpha' = 1 + mean * kept\<close> and \<open>beta' = 1 + (1 - mean) * kept\<close> with
  \<open>mean = alpha / (alpha + beta)\<close> and \<open>kept = floor ((alpha + beta - 2) * 0.25)\<close>. The sum
  \<open>alpha' + beta'\<close> is \<open>2 + kept\<close>; it never exceeds \<open>alpha + beta\<close> and is strictly smaller
  exactly when there is something to lose (\<open>alpha + beta > 2\<close>). The mean is not preserved:
  it moves by \<open>(1 - 2 * mean) / (2 + kept)\<close>, that is towards 1/2, and never farther from 1/2
  than it was.
\<close>

theorem softResetBetaParams_shrink:
  fixes a b :: real
  assumes "1 \<le> a" "1 \<le> b"
  defines "mean \<equiv> a / (a + b)"
  defines "kept \<equiv> real_of_int \<lfloor>(a + b - 2) * 0.25\<rfloor>"
  defines "a' \<equiv> alpha (softResetBetaParams a b)"
  defines "b' \<equiv> beta (softResetBetaParams a b)"
  shows "a' = 1 + mean * kept \<and> b' = 1 + (1 - mean) * kept
       \<and> a' + b' = 2 + kept \<and> a' + b' \<le> a + b
       \<and> (2 < a + b \<longrightarrow> a' + b' < a + b)
       \<and> betaMean a' b' - betaMean a b = (1 - 2 * mean) / (2 + kept)
       \<and> \<bar>betaMean a' b' - 1 / 2\<bar> \<le> \<bar>betaMean a b - 1 / 2\<bar>"
proof -
  have k0: "0 \<le> kept" using kept_bounds(1)[OF assms(1,2)] by (simp add: kept_def)
  have k1: "kept \<le> a + b - 2" using kept_bounds(2)[OF assms(1,2)] by (simp add: kept_def)
  have k2: "2 < a + b \<Longrightarrow> kept < a + b - 2"
    using kept_bounds(3)[OF assms(1,2)] by (simp add: kept_def)
  have fa: "a' = 1 + mean * kept" by (simp add: a'_def mean_def kept_def softReset_fields)
  have fb: "b' = 1 + (1 - mean) * kept" by (simp add: b'_def mean_def kept_def softReset_fields)
  have s: "a' + b' = 2 + kept" by (simp add: fa fb algebra_simps)
  have m: "betaMean a b = mean" by (simp add: betaMean_def mean_def)
  have pos: "0 < 2 + kept" using k0 by simp
  have m': "betaMean a' b' = (1 + mean * kept) / (2 + kept)"
    unfolding betaMean_def s by (simp add: fa)
  have d: "betaMean a' b' - betaMean a b = (1 - 2 * mean) / (2 + kept)"
    unfolding m m' using pos by (simp add: field_simps)
  have h: "betaMean a' b' - 1 / 2 = (mean - 1 / 2) * (kept / (2 + kept))"
    unfolding m' using pos by (simp add: field_simps)
  have r: "0 \<le> kept / (2 + kept)" "kept / (2 + kept) \<le> 1" using k0 by simp_all
  have "\<bar>betaMean a' b' - 1 / 2\<bar> = \<bar>mean - 1 / 2\<bar> * (kept / (2 + kept))"
    unfolding h using k0 by (simp add: abs_mult)
  also have "\<dots> \<le> \<bar>mean - 1 / 2\<bar> * 1"
    by (rule mult_left_mono) (use r in simp_all)
  finally have c: "\<bar>betaMean a' b' - 1 / 2\<bar> \<le> \<bar>betaMean a b - 1 / 2\<bar>" by (simp add: m)
  have le: "a' + b' \<le> a + b" using s k1 by linarith
  have lt: "2 < a + b \<longrightarrow> a' + b' < a + b" using s k2 by auto
  from fa fb s le lt d c show ?thesis by blast
qed

theorem softResetBetaParams_shrink_witness:
  "(1::real) \<le> 9 \<and> (1::real) \<le> 1 \<and> (2::real) < 9 + 1
   \<and> alpha (softResetBetaParams 9 1) + beta (softResetBetaParams 9 1) = 4
   \<and> betaMean (alpha (softResetBetaParams 9 1)) (beta (softResetBetaParams 9 1)) - betaMean 9 1
       = - 1 / 5"
  using softResetBetaParams_shrink[of 9 1] by simp

section \<open>Feedback: the dose search\<close>


lemma updateModel_other:
  "q \<noteq> pid \<Longrightarrow> models (updateModel clk pid d cur data) q = models data q"
  by (simp add: updateModel_def Let_def)

lemma updateModel_medDuration:
  "\<exists>m. models (updateModel clk pid d cur data) pid = Some m \<and>
     medDuration m = Some (if d = 1 then max 45 (cur - medStep (history data) pid)
                          else if d = -1 then min 180 (cur + medStep (history data) pid)
                          else cur)"
  by (simp add: updateModel_def Let_def updateMedDuration_def)

lemma learnedDuration_updateModel:
  "protocol_id p = pid \<Longrightarrow>
   learnedDuration (updateModel clk pid 1 cur data) p = max 45 (cur - medStep (history data) pid)"
  using updateModel_medDuration[of clk pid 1 cur data]
  by (auto simp: learnedDuration_def Let_def orElse_def)













section \<open>Properties of the random source and the samplers\<close>

lemma advance_0 [simp]: "advance 0 rnd = rnd"
  by (simp add: advance_def)

lemma advance_advance: "advance m (advance n rnd) = advance (n + m) rnd"
  by (simp add: advance_def ac_simps)

lemma unitSource_advance: "unitSource rnd \<Longrightarrow> unitSource (advance k rnd)"
  by (simp add: unitSource_def advance_def)

lemma samplerReturns_advance: "samplerReturns rnd \<Longrightarrow> samplerReturns (advance k rnd)"
  by (simp add: samplerReturns_def advance_advance) (simp add: advance_def)

lemma randomNormal_advances: "snd (randomNormal m s rnd) = advance 2 rnd"
  by (simp add: randomNormal_def Let_def)

text \<open>A sampler that returns has consumed a finite part of the source.\<close>

lemma gammaLoop_advances:
  assumes a: "gammaLoop d c rnd = Some y"
  shows "\<exists>j. snd y = advance j rnd"
proof (rule gammaLoop.raw_induct[where P = "\<lambda>d c rnd y. \<exists>j. snd y = advance j rnd", OF _ a],
    goal_cases)
  case (1 f d c rnd y)
  obtain n rnd1 where n: "randomNormal 0 1 rnd = (n, rnd1)" by (cases "randomNormal 0 1 rnd")
  then have r1: "rnd1 = advance 2 rnd" using randomNormal_advances[of 0 1 rnd] by simp
  from 1(2) n have "f d c rnd1 = Some y \<or> snd y = advance 1 rnd1
      \<or> f d c (advance 1 rnd1) = Some y"
    by (auto simp: Let_def split: if_splits)
  then show ?case
  proof (elim disjE)
    assume "f d c rnd1 = Some y"
    then have "\<exists>j. snd y = advance j rnd1" by (rule 1(1))
    then show ?thesis unfolding r1 advance_advance by blast
  next
    assume "snd y = advance 1 rnd1"
    then show ?thesis unfolding r1 advance_advance by blast
  next
    assume "f d c (advance 1 rnd1) = Some y"
    then have "\<exists>j. snd y = advance j (advance 1 rnd1)" by (rule 1(1))
    then show ?thesis unfolding r1 advance_advance by blast
  qed
qed

lemma sampleGamma_advances:
  "sampleGamma shape rnd = Some y \<Longrightarrow> \<exists>j. snd y = advance j rnd"
proof (induction shape rnd arbitrary: y rule: sampleGamma.induct)
  case (1 shape rnd)
  show ?case
  proof (cases "shape < 1")
    case True
    with 1(2) obtain g rnd1 where g: "sampleGamma (shape + 1) rnd = Some (g, rnd1)"
        "snd y = advance 1 rnd1"
      by (subst (asm) sampleGamma.simps) (auto split: option.splits)
    from 1(1)[OF True g(1)] obtain j where "rnd1 = advance j rnd" by auto
    then show ?thesis using g(2) by (auto simp: advance_advance)
  next
    case False
    with 1(2) show ?thesis
      by (subst (asm) sampleGamma.simps) (auto simp: Let_def dest: gammaLoop_advances)
  qed
qed

lemma sampleBeta_advances:
  "sampleBeta a b rnd = Some y \<Longrightarrow> \<exists>j. snd y = advance j rnd"
  unfolding sampleBeta_def
  by (auto split: option.splits dest!: sampleGamma_advances simp: advance_advance)
     blast

lemma sampleBeta_returns:
  assumes "samplerReturns rnd"
  shows "\<exists>x j. sampleBeta a b rnd = Some (x, advance j rnd)"
proof -
  have "sampleBeta a b (advance 0 rnd) \<noteq> None"
    using assms unfolding samplerReturns_def by blast
  then obtain y where y: "sampleBeta a b rnd = Some y" by auto
  from sampleBeta_advances[OF y] obtain j where "snd y = advance j rnd" by blast
  then have "y = (fst y, advance j rnd)" by (cases y) simp
  with y show ?thesis by metis
qed

subsection \<open>The sampler on the constant source 0.25\<close>

lemma advance_quarter [simp]: "advance n quarter = quarter"
  by (simp add: advance_def quarter_def)

lemma quarter_unit: "unitSource quarter"
  by (simp add: unitSource_def quarter_def)

lemma randomNormal_quarter: "randomNormal 0 1 quarter = (0, quarter)"
  by (simp add: randomNormal_def Let_def) (simp add: quarter_def)

lemma gammaLoop_quarter: "gammaLoop d c quarter = Some (d, quarter)"
  by (subst gammaLoop.simps) (simp add: randomNormal_quarter Let_def, simp add: quarter_def)

lemma sampleGamma_quarter: "\<exists>g. sampleGamma shape quarter = Some (g, quarter)"
proof (induction shape "quarter" rule: sampleGamma.induct)
  case (1 shape)
  show ?case
  proof (cases "shape < 1")
    case True
    with 1 obtain g where "sampleGamma (shape + 1) quarter = Some (g, quarter)" by blast
    then show ?thesis using True by (subst sampleGamma.simps) simp
  next
    case False
    then show ?thesis by (subst sampleGamma.simps) (simp add: gammaLoop_quarter Let_def)
  qed
qed

lemma sampleGamma_quarter_ge:
  "1 \<le> shape \<Longrightarrow> sampleGamma shape quarter = Some (shape - 1 / 3, quarter)"
  by (subst sampleGamma.simps) (simp add: gammaLoop_quarter Let_def)

lemma sampleBeta_quarter_ge:
  "1 \<le> a \<Longrightarrow> 1 \<le> b \<Longrightarrow>
   sampleBeta a b quarter = Some ((a - 1 / 3) / ((a - 1 / 3) + (b - 1 / 3)), quarter)"
  by (simp add: sampleBeta_def sampleGamma_quarter_ge)

lemma quarter_returns: "samplerReturns quarter"
proof -
  have "sampleBeta a b quarter \<noteq> None" for a b
  proof -
    obtain g where g: "sampleGamma a quarter = Some (g, quarter)"
      using sampleGamma_quarter by blast
    obtain h where h: "sampleGamma b quarter = Some (h, quarter)"
      using sampleGamma_quarter by blast
    show ?thesis by (simp add: sampleBeta_def g h)
  qed
  then show ?thesis by (simp add: samplerReturns_def) (simp add: quarter_def)
qed

section \<open>Selection: picks, catalog and drift sweep\<close>

lemma pickRandom_unit:
  assumes "0 \<le> u" "u < 1" "xs \<noteq> []"
  shows "\<exists>x \<in> set xs. pickRandom u xs = Inr x"
proof -
  let ?n = "real (length xs)"
  have n: "0 < ?n" using assms(3) by simp
  have lo: "0 \<le> \<lfloor>u * ?n\<rfloor>" using assms(1) by simp
  have "u * ?n < ?n" using assms(2) n by simp
  then have "\<lfloor>u * ?n\<rfloor> < int (length xs)" by (simp add: floor_less_iff)
  then have hi: "nat \<lfloor>u * ?n\<rfloor> < length xs" using lo by linarith
  show ?thesis using lo hi by (auto simp: pickRandom_def Let_def)
qed

lemma catalog_nonempty: "getProtocolsByGoal g \<noteq> []"
  by (cases g) (simp_all add: getProtocolsByGoal_def protocols_def)

subsection \<open>The drift sweep\<close>

lemma driftSweep_frame:
  "history (driftSweep now cands data) = history data
   \<and> streak (driftSweep now cands data) = streak data"
  by (induction cands arbitrary: data) (auto split: option.splits)

lemma shouldReset_resetModel:
  "\<not> shouldResetDueToDrift now 0 ts"
  by (simp add: shouldResetDueToDrift_def DRIFT_VARIANCE_THRESHOLD_def)

lemma driftSweep_models:
  "models (driftSweep now cands data) pid =
     (if pid \<in> protocol_id ` set cands \<and> drifting now data pid then Some (resetModel now)
      else models data pid)"
proof (induction cands arbitrary: data)
  case Nil
  then show ?case by simp
next
  case (Cons p ps)
  let ?d = "data\<lparr>models := (models data)(protocol_id p \<mapsto> resetModel now)\<rparr>"
  have nd: "\<not> drifting now ?d (protocol_id p)"
    by (simp add: drifting_def resetModel_def shouldReset_resetModel)
  have same: "\<And>q. q \<noteq> protocol_id p \<Longrightarrow> drifting now ?d q = drifting now data q"
    by (simp add: drifting_def)
  show ?case
  proof (cases "drifting now data (protocol_id p)")
    case True
    then have step: "driftSweep now (p # ps) data = driftSweep now ps ?d"
      by (auto simp: drifting_def split: option.splits)
    show ?thesis
      unfolding step Cons.IH using True nd same by auto
  next
    case False
    then have step: "driftSweep now (p # ps) data = driftSweep now ps data"
      by (auto simp: drifting_def split: option.splits)
    show ?thesis
      unfolding step Cons.IH using False by auto
  qed
qed

lemma driftSweep_id:
  assumes "\<forall>p \<in> set cands. \<not> drifting now data (protocol_id p)"
  shows "driftSweep now cands data = data"
  using assms
  by (induction cands arbitrary: data) (auto simp: drifting_def split: option.splits)

section \<open>Properties of the ensemble\<close>

subsection \<open>Sorting, largest first\<close>

lemma sortDesc_set [simp]: "set (sortDesc key xs) = set xs"
  by (simp add: sortDesc_def)

lemma sortDesc_length [simp]: "length (sortDesc key xs) = length xs"
  by (simp add: sortDesc_def)

lemma sortDesc_Nil [simp]: "sortDesc key xs = [] \<longleftrightarrow> xs = []"
  using sortDesc_length[of key xs] by (metis length_0_conv)

lemma sortDesc_sorted: "sorted (map (\<lambda>x. - key x) (sortDesc key xs))"
  by (simp add: sortDesc_def)

lemma sortDesc_head:
  assumes "sortDesc key xs = w # rest"
  shows "w \<in> set xs" and "\<forall>x \<in> set xs. key x \<le> key w"
proof -
  have s: "set xs = set (w # rest)" using assms sortDesc_set[of key xs] by simp
  then show "w \<in> set xs" by simp
  have "sorted (map (\<lambda>x. - key x) (w # rest))"
    using sortDesc_sorted[of key xs] assms by simp
  then have "\<forall>x \<in> set rest. key x \<le> key w" by auto
  then show "\<forall>x \<in> set xs. key x \<le> key w" using s by auto
qed

subsection \<open>The four strategies return a vote for one of the protocols\<close>

lemma thompsonSamples_ok:
  assumes "samplerReturns rnd"
  shows "\<exists>samples j. thompsonSamples ps rnd = Some (samples, advance j rnd)
             \<and> map fst samples = map e_id ps"
  using assms
proof (induction ps arbitrary: rnd)
  case Nil
  have "thompsonSamples [] rnd = Some ([], advance 0 rnd)" by simp
  then show ?case by (metis list.simps(8))
next
  case (Cons p ps)
  obtain x j where x: "sampleBeta (e_alpha p) (e_beta p) rnd = Some (x, advance j rnd)"
    using sampleBeta_returns[OF Cons.prems] by blast
  obtain samples k where k:
      "thompsonSamples ps (advance j rnd) = Some (samples, advance k (advance j rnd))"
      "map fst samples = map e_id ps"
    using Cons.IH[OF samplerReturns_advance[OF Cons.prems]] by blast
  let ?s = "(e_id p, x, betaMean (e_alpha p) (e_beta p),
             posteriorVariance (e_alpha p) (e_beta p)) # samples"
  have "thompsonSamples (p # ps) rnd = Some (?s, advance (j + k) rnd)"
    by (simp add: x k(1) advance_advance)
  moreover have "map fst ?s = map e_id (p # ps)" using k(2) by simp
  ultimately show ?case by blast
qed

lemma thompsonVote_ok:
  assumes "ps \<noteq> []" "samplerReturns rnd"
  shows "\<exists>v j. thompsonVote ps rnd = Some (Inr (v, advance j rnd))
             \<and> vote_algorithm v = Thompson
             \<and> vote_protocolId v \<in> e_id ` set ps"
proof -
  obtain samples j where s: "thompsonSamples ps rnd = Some (samples, advance j rnd)"
      "map fst samples = map e_id ps"
    using thompsonSamples_ok[OF assms(2)] by blast
  let ?key = "\<lambda>(i::string, sample::real, m::real, v::real). sample"
  have ne: "samples \<noteq> []" using assms(1) s(2) by auto
  then obtain w rest where wr: "sortDesc ?key samples = w # rest"
    by (cases "sortDesc ?key samples") auto
  have "w \<in> set samples" using sortDesc_head(1)[OF wr] .
  then have "fst w \<in> set (map fst samples)" by simp
  then have "fst w \<in> e_id ` set ps" unfolding s(2) by simp
  then have "\<exists>v. thompsonVote ps rnd = Some (Inr (v, advance j rnd))
             \<and> vote_algorithm v = Thompson
             \<and> vote_protocolId v \<in> e_id ` set ps"
    unfolding thompsonVote_def Let_def s(1) by (cases w) (simp add: wr)
  then show ?thesis by blast
qed

lemma ucbVote_ok:
  assumes "ps \<noteq> []"
  shows "\<exists>v. ucbVote ps n = Inr v \<and> vote_algorithm v = UCB
             \<and> vote_protocolId v \<in> e_id ` set ps"
proof -
  let ?f = "\<lambda>p.
            (let mean = betaMean (e_alpha p) (e_beta p);
                 variance = posteriorVariance (e_alpha p) (e_beta p);
                 exploration = sqrt ((2 * ln (real n + 1)) / (real (e_trials p) + 1));
                 ucbScore = mean + exploration + sqrt variance
             in (e_id p, ucbScore, mean, exploration))"
  let ?key = "\<lambda>(i::string, score::real, m::real, e::real). score"
  have ne: "map ?f ps \<noteq> []" using assms by simp
  then obtain w rest where wr: "sortDesc ?key (map ?f ps) = w # rest"
    by (cases "sortDesc ?key (map ?f ps)") auto
  have "w \<in> set (map ?f ps)" using sortDesc_head(1)[OF wr] .
  then have "fst w \<in> e_id ` set ps"
    by (auto simp: Let_def)
  then show ?thesis
    unfolding ucbVote_def Let_def using wr[unfolded Let_def] by (cases w) auto
qed

lemma epsilonGreedyVote_ok:
  assumes "ps \<noteq> []" "unitSource rnd"
  shows "\<exists>v rnd'. epsilonGreedyVote ps n rnd = Inr (v, rnd') \<and> vote_algorithm v = EpsilonGreedy
             \<and> vote_protocolId v \<in> e_id ` set ps \<and> unitSource rnd'"
proof (cases "rnd 0 < max 0.05 (0.2 * exp (- real n / 30))")
  case True
  have "0 \<le> rnd 1" "rnd 1 < 1" using assms(2) by (auto simp: unitSource_def)
  then obtain x where x: "x \<in> set ps" "pickRandom (rnd 1) ps = Inr x"
    using pickRandom_unit[of "rnd 1" ps] assms(1) by blast
  have "unitSource (advance 2 rnd)" using assms(2) by (simp add: unitSource_def advance_def)
  then show ?thesis
    using True x by (simp add: epsilonGreedyVote_def Let_def)
next
  case False
  let ?f = "\<lambda>p. (e_id p, betaMean (e_alpha p) (e_beta p),
                                       posteriorVariance (e_alpha p) (e_beta p))"
  let ?key = "\<lambda>(i::string, m::real, v::real). m"
  have ne: "map ?f ps \<noteq> []" using assms by simp
  then obtain w rest where wr: "sortDesc ?key (map ?f ps) = w # rest"
    by (cases "sortDesc ?key (map ?f ps)") auto
  have "w \<in> set (map ?f ps)" using sortDesc_head(1)[OF wr] .
  then have "fst w \<in> e_id ` set ps" by auto
  moreover have "unitSource (advance 1 rnd)"
    using assms(2) by (simp add: unitSource_def advance_def)
  ultimately show ?thesis
    using False wr by (cases w) (simp add: epsilonGreedyVote_def Let_def)
qed

lemma softmaxIndex_range:
  "softmaxIndex rand probs c i = 0 \<or> (i \<le> softmaxIndex rand probs c i
      \<and> softmaxIndex rand probs c i < i + length probs)"
proof (induction probs arbitrary: c i)
  case Nil
  then show ?case by simp
next
  case (Cons p probs)
  show ?case
  proof (cases "rand \<le> c + p")
    case True
    then show ?thesis by simp
  next
    case False
    then show ?thesis using Cons.IH[of "c + p" "i + 1"] by auto
  qed
qed

lemma softmaxIndex_map: "ps \<noteq> [] \<Longrightarrow> softmaxIndex rand (map f ps) 0 0 < length ps"
  using softmaxIndex_range[of rand "map f ps" 0 0] by auto

lemma softmaxVote_ok:
  assumes "ps \<noteq> []"
  shows "\<exists>v. softmaxVote ps n rnd = Inr v \<and> vote_algorithm v = Softmax
             \<and> vote_protocolId v \<in> e_id ` set ps"
  using assms by (simp add: softmaxVote_def Let_def softmaxIndex_map)

subsection \<open>Counting the weighted votes\<close>

lemma addCount_map_of:
  "map_of (addCount acc k w) =
     (map_of acc)(k \<mapsto> (case map_of acc k of None \<Rightarrow> 0 | Some c \<Rightarrow> c) + w)"
  by (induction acc) (auto simp: fun_eq_iff)

lemma addCount_fst:
  "map fst (addCount acc k w) =
     (if k \<in> set (map fst acc) then map fst acc else map fst acc @ [k])"
  by (induction acc) (auto, force+)

lemma addCount_keys: "fst ` set (addCount acc k w) = insert k (fst ` set acc)"
  using addCount_fst[of acc k w] by (metis (no_types, lifting) insert_absorb list.set_map
      set_append set_simps(1) set_simps(2) Un_insert_right sup_bot.right_neutral)

lemma addCount_distinct:
  "distinct (map fst acc) \<Longrightarrow> distinct (map fst (addCount acc k w))"
  by (simp add: addCount_fst)

lemma countVotes_distinct:
  "distinct (map fst acc) \<Longrightarrow> distinct (map fst (countVotes W vs acc))"
  by (induction vs arbitrary: acc) (auto simp: Let_def addCount_distinct)

lemma countVotes_keys:
  "fst ` set (countVotes W vs acc) = fst ` set acc \<union> vote_protocolId ` set vs"
  by (induction vs arbitrary: acc) (auto simp: Let_def addCount_keys)

lemma weightedTotal_Cons:
  "weightedTotal W (v # vs) pid =
     (if vote_protocolId v = pid then weightOf W (vote_algorithm v) * vote_confidence v else 0)
       + weightedTotal W vs pid"
  by (simp add: weightedTotal_def)

lemma countVotes_map_of:
  "pid \<in> fst ` set acc \<union> vote_protocolId ` set vs \<Longrightarrow>
   map_of (countVotes W vs acc) pid =
     Some ((case map_of acc pid of None \<Rightarrow> 0 | Some c \<Rightarrow> c) + weightedTotal W vs pid)"
proof (induction vs arbitrary: acc)
  case Nil
  then obtain c where "map_of acc pid = Some c"
    by (auto simp: weak_map_of_SomeI map_of_eq_None_iff) (metis fst_conv image_eqI map_of_eq_None_iff not_Some_eq)
  then show ?case by (simp add: weightedTotal_def)
next
  case (Cons v vs)
  let ?acc = "addCount acc (vote_protocolId v) (weightOf W (vote_algorithm v) * vote_confidence v)"
  have "pid \<in> fst ` set ?acc \<union> vote_protocolId ` set vs"
    using Cons.prems by (auto simp: addCount_keys)
  from Cons.IH[OF this] show ?case
    by (auto simp: Let_def addCount_map_of weightedTotal_Cons split: option.splits)
qed

lemma countVotes_entry:
  assumes "(k, c) \<in> set (countVotes W vs [])"
  shows "k \<in> vote_protocolId ` set vs" and "c = weightedTotal W vs k"
proof -
  have k: "k \<in> fst ` set (countVotes W vs [])" using assms by force
  then show kv: "k \<in> vote_protocolId ` set vs" by (simp add: countVotes_keys)
  have "map_of (countVotes W vs []) k = Some c"
    using assms countVotes_distinct[of "[]" W vs] by simp
  then show "c = weightedTotal W vs k"
    using countVotes_map_of[of k "[]" vs W] kv by simp
qed

lemma find_by_id:
  "k \<in> f ` set xs \<Longrightarrow> \<exists>x. find (\<lambda>p. f p = k) xs = Some x \<and> x \<in> set xs \<and> f x = k"
  by (induction xs) auto

lemma quarters:
  assumes "n \<le> (4::nat)"
  shows "real n / 4 \<in> {0, 0.25, 0.5, 0.75, 1.0}"
proof -
  have "n = 0 \<or> n = 1 \<or> n = 2 \<or> n = 3 \<or> n = 4" using assms by linarith
  then show ?thesis by auto
qed

lemma ensembleVoting_result:
  assumes ne: "ps \<noteq> []" and u: "unitSource rnd" and sr: "samplerReturns rnd"
  shows "\<exists>r v1 v2 v3 v4 rnd1 rnd2.
           ensembleVoting ps totalTrials W rnd = Some (Inr r)
         \<and> thompsonVote ps rnd = Some (Inr (v1, rnd1))
         \<and> ucbVote ps totalTrials = Inr v2
         \<and> epsilonGreedyVote ps totalTrials rnd1 = Inr (v3, rnd2)
         \<and> softmaxVote ps totalTrials rnd2 = Inr v4
         \<and> votes r = [v1, v2, v3, v4]
         \<and> map vote_algorithm (votes r) = [Thompson, UCB, EpsilonGreedy, Softmax]
         \<and> selectedProtocolId r \<in> vote_protocolId ` set (votes r)
         \<and> selectedProtocolId r \<in> e_id ` set ps
         \<and> (\<forall>v \<in> set (votes r). weightedTotal W (votes r) (vote_protocolId v)
                \<le> weightedTotal W (votes r) (selectedProtocolId r))
         \<and> consensusScore r =
             real (length (filter (\<lambda>v. vote_protocolId v = selectedProtocolId r) (votes r))) / 4"
proof -
  obtain v1 j where v1: "thompsonVote ps rnd = Some (Inr (v1, advance j rnd))"
      "vote_algorithm v1 = Thompson" "vote_protocolId v1 \<in> e_id ` set ps"
    using thompsonVote_ok[OF ne sr] by blast
  obtain v2 where v2: "ucbVote ps totalTrials = Inr v2" "vote_algorithm v2 = UCB"
      "vote_protocolId v2 \<in> e_id ` set ps"
    using ucbVote_ok[OF ne] by blast
  have u': "unitSource (advance j rnd)" using u by (rule unitSource_advance)
  obtain v3 rnd' where v3:
      "epsilonGreedyVote ps totalTrials (advance j rnd) = Inr (v3, rnd')"
      "vote_algorithm v3 = EpsilonGreedy" "vote_protocolId v3 \<in> e_id ` set ps"
    using epsilonGreedyVote_ok[OF ne u'] by blast
  obtain v4 where v4: "softmaxVote ps totalTrials rnd' = Inr v4" "vote_algorithm v4 = Softmax"
      "vote_protocolId v4 \<in> e_id ` set ps"
    using softmaxVote_ok[OF ne] by blast
  let ?votes = "[v1, v2, v3, v4]"
  let ?counts = "countVotes W ?votes []"
  have keys: "fst ` set ?counts = vote_protocolId ` set ?votes"
    using countVotes_keys[of W ?votes "[]"] by simp
  then have "?counts \<noteq> []" by auto
  then obtain winner rest where wr: "sortDesc snd ?counts = winner # rest"
    by (cases "sortDesc snd ?counts") auto
  have win: "winner \<in> set ?counts" and top: "\<forall>x \<in> set ?counts. snd x \<le> snd winner"
    using sortDesc_head[OF wr] by auto
  have wk: "fst winner \<in> vote_protocolId ` set ?votes"
    and wc: "snd winner = weightedTotal W ?votes (fst winner)"
    using countVotes_entry[of "fst winner" "snd winner" W ?votes] win by auto
  have wps: "fst winner \<in> e_id ` set ps" using wk v1(3) v2(3) v3(3) v4(3) by auto
  then obtain sp where sp: "find (\<lambda>p. e_id p = fst winner) ps = Some sp"
    using find_by_id[of "fst winner" e_id ps] by blast
  let ?r = "\<lparr>selectedProtocolId = fst winner, selectedProtocolName = e_name sp,
             votes = ?votes,
             consensusScore = real (length (filter (\<lambda>v. vote_protocolId v = fst winner) ?votes))
                / real (length ?votes)\<rparr>"
  have res: "ensembleVoting ps totalTrials W rnd = Some (Inr ?r)"
    unfolding ensembleVoting_def by (simp only: v1 v2 v3 v4 sum.case prod.case Let_def wr
        list.case sp option.case)
  have best: "\<forall>v \<in> set ?votes. weightedTotal W ?votes (vote_protocolId v)
                \<le> weightedTotal W ?votes (fst winner)"
  proof
    fix v assume "v \<in> set ?votes"
    then have "vote_protocolId v \<in> fst ` set ?counts" unfolding keys by blast
    then obtain c where c: "(vote_protocolId v, c) \<in> set ?counts" by force
    then have "c = weightedTotal W ?votes (vote_protocolId v)"
      using countVotes_entry(2) by blast
    moreover have "c \<le> snd winner" using top c by force
    ultimately show "weightedTotal W ?votes (vote_protocolId v)
                \<le> weightedTotal W ?votes (fst winner)" using wc by simp
  qed
  show ?thesis
    apply (rule exI[of _ ?r], rule exI[of _ v1], rule exI[of _ v2], rule exI[of _ v3],
        rule exI[of _ v4], rule exI[of _ "advance j rnd"], rule exI[of _ rnd'])
    using res v1 v2 v3 v4 wk wps best by simp
qed

section \<open>The return statements of the orchestrator\<close>

lemma protocolsForEnsemble_ids:
  "e_id ` set (protocolsForEnsemble data cands) = protocol_id ` set cands"
  by (simp add: protocolsForEnsemble_def Let_def image_image)

lemma protocolsForEnsemble_Nil: "protocolsForEnsemble data cands = [] \<longleftrightarrow> cands = []"
  by (simp add: protocolsForEnsemble_def)

text \<open>The five ways out of \<open>selectProtocol\<close>.\<close>

lemma select_untried:
  assumes "unitSource rnd" "untried data (getProtocolsByGoal g) \<noteq> []"
  shows "\<exists>p \<in> set (untried data (getProtocolsByGoal g)).
           selectProtocol g clk rnd data =
             Some (Inr \<lparr>selection = \<lparr>protocol = p, duration = baseSeconds p\<rparr>,
                  phase = ExploringUntried, stored = data\<rparr>)"
proof -
  have "0 \<le> rnd 0" "rnd 0 < 1" using assms(1) by (auto simp: unitSource_def)
  then obtain p where "p \<in> set (untried data (getProtocolsByGoal g))"
      "pickRandom (rnd 0) (untried data (getProtocolsByGoal g)) = Inr p"
    using pickRandom_unit[OF _ _ assms(2)] by blast
  then show ?thesis using assms(2) by (auto simp: selectProtocol_def Let_def)
qed

lemma select_undertried:
  assumes "unitSource rnd" "untried data (getProtocolsByGoal g) = []"
    "undertried data (getProtocolsByGoal g) \<noteq> []"
  shows "\<exists>p \<in> set (undertried data (getProtocolsByGoal g)).
           selectProtocol g clk rnd data =
             Some (Inr \<lparr>selection = \<lparr>protocol = p, duration = baseSeconds p\<rparr>,
                  phase = BuildingData, stored = data\<rparr>)"
proof -
  have "0 \<le> rnd 0" "rnd 0 < 1" using assms(1) by (auto simp: unitSource_def)
  then obtain p where "p \<in> set (undertried data (getProtocolsByGoal g))"
      "pickRandom (rnd 0) (undertried data (getProtocolsByGoal g)) = Inr p"
    using pickRandom_unit[OF _ _ assms(3)] by blast
  then show ?thesis using assms(2,3) by (auto simp: selectProtocol_def Let_def)
qed

lemma select_hourly:
  assumes "unitSource rnd" "untried data (getProtocolsByGoal g) = []"
    "undertried data (getProtocolsByGoal g) = []"
    "hourlyUndertried data (hourOfDay clk) (getProtocolsByGoal g) \<noteq> []"
  shows "\<exists>p \<in> set (hourlyUndertried data (hourOfDay clk) (getProtocolsByGoal g)).
           selectProtocol g clk rnd data =
             Some (Inr \<lparr>selection = \<lparr>protocol = p, duration = baseSeconds p\<rparr>,
                  phase = HourlyExploration, stored = data\<rparr>)"
proof -
  have "0 \<le> rnd 0" "rnd 0 < 1" using assms(1) by (auto simp: unitSource_def)
  then obtain p where "p \<in> set (hourlyUndertried data (hourOfDay clk) (getProtocolsByGoal g))"
      "pickRandom (rnd 0) (hourlyUndertried data (hourOfDay clk) (getProtocolsByGoal g)) = Inr p"
    using pickRandom_unit[OF _ _ assms(4)] by blast
  then show ?thesis using assms(2,3,4) by (auto simp: selectProtocol_def Let_def)
qed

lemma select_ensemble:
  assumes "unitSource rnd" "samplerReturns rnd" "untried data (getProtocolsByGoal g) = []"
    "undertried data (getProtocolsByGoal g) = []"
    "hourlyUndertried data (hourOfDay clk) (getProtocolsByGoal g) = []"
    "isCloseCompetition
       (allProtocolStats (driftSweep (nowMs clk) (getProtocolsByGoal g) data)
          (getProtocolsByGoal g))"
  shows "\<exists>p r. p \<in> set (getProtocolsByGoal g)
         \<and> ensembleVoting
               (protocolsForEnsemble (driftSweep (nowMs clk) (getProtocolsByGoal g) data)
                  (getProtocolsByGoal g))
               (sum_list (map e_trials
                  (protocolsForEnsemble (driftSweep (nowMs clk) (getProtocolsByGoal g) data)
                     (getProtocolsByGoal g))))
               ensembleWeights rnd = Some (Inr r)
         \<and> protocol_id p = selectedProtocolId r
         \<and> selectProtocol g clk rnd data =
             Some (Inr \<lparr>selection = \<lparr>protocol = p,
                    duration = learnedDuration
                      (driftSweep (nowMs clk) (getProtocolsByGoal g) data) p\<rparr>,
                  phase = EnsembleVoting,
                  stored = driftSweep (nowMs clk) (getProtocolsByGoal g) data\<rparr>)"
proof -
  let ?cands = "getProtocolsByGoal g"
  let ?data = "driftSweep (nowMs clk) ?cands data"
  let ?ps = "protocolsForEnsemble ?data ?cands"
  have ne: "?ps \<noteq> []" by (simp add: protocolsForEnsemble_Nil catalog_nonempty)
  obtain r where r:
      "ensembleVoting ?ps (sum_list (map e_trials ?ps)) ensembleWeights rnd = Some (Inr r)"
      "selectedProtocolId r \<in> e_id ` set ?ps"
    using ensembleVoting_result[OF ne assms(1,2), of "sum_list (map e_trials ?ps)"
        ensembleWeights]
    by blast
  then have "selectedProtocolId r \<in> protocol_id ` set ?cands"
    by (simp add: protocolsForEnsemble_ids)
  then obtain p where p: "find (\<lambda>p. protocol_id p = selectedProtocolId r) ?cands = Some p"
      "p \<in> set ?cands" "protocol_id p = selectedProtocolId r"
    using find_by_id[of "selectedProtocolId r" protocol_id ?cands] by blast
  have "selectProtocol g clk rnd data =
             Some (Inr \<lparr>selection = \<lparr>protocol = p, duration = learnedDuration ?data p\<rparr>,
                  phase = EnsembleVoting, stored = ?data\<rparr>)"
    using assms(3-6) r(1) p(1) by (simp add: selectProtocol_def Let_def)
  with r(1) p(2,3) show ?thesis by blast
qed

lemma candidateScore_returns:
  assumes "samplerReturns rnd"
  shows "\<exists>score j. candidateScore data p rnd = Some (score, advance j rnd)"
proof -
  obtain x j where
    "sampleBeta (orElse (alphaParam (the (models data (protocol_id p)))) 1)
       (orElse (betaParam (the (models data (protocol_id p)))) 1) rnd = Some (x, advance j rnd)"
    using sampleBeta_returns[OF assms] by blast
  then show ?thesis
    by (auto simp: candidateScore_def Let_def split: option.splits)
qed

lemma thompsonLoop_returns:
  assumes "samplerReturns rnd"
  shows "\<exists>b. thompsonLoop data cands rnd best = Some b"
  using assms
proof (induction cands arbitrary: rnd best)
  case Nil
  then show ?case by simp
next
  case (Cons p cands)
  obtain score j where sc: "candidateScore data p rnd = Some (score, advance j rnd)"
    using candidateScore_returns[OF Cons.prems] by blast
  obtain bp bs where best: "best = (bp, bs)" by (cases best)
  show ?case
    unfolding best
    using Cons.IH[OF samplerReturns_advance[OF Cons.prems]]
    by (simp add: sc)
qed

lemma select_standard:
  assumes "samplerReturns rnd" "untried data (getProtocolsByGoal g) = []"
    "undertried data (getProtocolsByGoal g) = []"
    "hourlyUndertried data (hourOfDay clk) (getProtocolsByGoal g) = []"
    "\<not> isCloseCompetition
       (allProtocolStats (driftSweep (nowMs clk) (getProtocolsByGoal g) data)
          (getProtocolsByGoal g))"
  shows "\<exists>p. selectProtocol g clk rnd data =
             Some (Inr \<lparr>selection = \<lparr>protocol = p,
                    duration = learnedDuration
                      (driftSweep (nowMs clk) (getProtocolsByGoal g) data) p\<rparr>,
                  phase = StandardSelection,
                  stored = driftSweep (nowMs clk) (getProtocolsByGoal g) data\<rparr>)"
proof -
  obtain first others where c: "getProtocolsByGoal g = first # others"
    using catalog_nonempty[of g] by (cases "getProtocolsByGoal g") auto
  obtain bp bs where b: "thompsonLoop (driftSweep (nowMs clk) (first # others) data)
      (first # others) rnd (first, None) = Some (bp, bs)"
    using thompsonLoop_returns[OF assms(1)] by (metis surj_pair)
  show ?thesis
    using assms(2-5) unfolding c
    by (simp add: selectProtocol_def Let_def c b del: thompsonLoop.simps driftSweep.simps)
qed

text \<open>The return statement that is reached, as a function of the stored state.\<close>

lemma selectProtocol_outcome:
  assumes u: "unitSource rnd" and sr: "samplerReturns rnd"
  shows "\<exists>out. selectProtocol g clk rnd data = Some (Inr out)
      \<and> phase out =
          (if untried data (getProtocolsByGoal g) \<noteq> [] then ExploringUntried
           else if undertried data (getProtocolsByGoal g) \<noteq> [] then BuildingData
           else if hourlyUndertried data (hourOfDay clk) (getProtocolsByGoal g) \<noteq> []
             then HourlyExploration
           else if isCloseCompetition
                (allProtocolStats (driftSweep (nowMs clk) (getProtocolsByGoal g) data)
                   (getProtocolsByGoal g))
             then EnsembleVoting
           else StandardSelection)
      \<and> stored out =
          (if untried data (getProtocolsByGoal g) \<noteq> []
              \<or> undertried data (getProtocolsByGoal g) \<noteq> []
              \<or> hourlyUndertried data (hourOfDay clk) (getProtocolsByGoal g) \<noteq> []
           then data else driftSweep (nowMs clk) (getProtocolsByGoal g) data)"
proof (cases "untried data (getProtocolsByGoal g) \<noteq> []")
  case True
  then show ?thesis using select_untried[OF u True, of clk] by auto
next
  case n1: False
  show ?thesis
  proof (cases "undertried data (getProtocolsByGoal g) \<noteq> []")
    case True
    then show ?thesis using select_undertried[OF u _ True, of clk] n1 by auto
  next
    case n2: False
    show ?thesis
    proof (cases "hourlyUndertried data (hourOfDay clk) (getProtocolsByGoal g) \<noteq> []")
      case True
      then show ?thesis using select_hourly[OF u _ _ True] n1 n2 by auto
    next
      case n3: False
      show ?thesis
      proof (cases "isCloseCompetition
                (allProtocolStats (driftSweep (nowMs clk) (getProtocolsByGoal g) data)
                   (getProtocolsByGoal g))")
        case True
        then show ?thesis using select_ensemble[OF u sr _ _ _ True] n1 n2 n3 by auto
      next
        case False
        then show ?thesis using select_standard[OF sr _ _ _ False] n1 n2 n3 by auto
      qed
    qed
  qed
qed

section \<open>Evaluation on the example states\<close>

lemma focus_candidates: "getProtocolsByGoal Focus = [boxBreathing, eyeBreak, alternateNostril]"
  by (simp add: getProtocolsByGoal_def protocols_def boxBreathing_def eyeBreak_def
      alternateNostril_def)

lemma ids [simp]:
  "protocol_id boxBreathing = ''box-breathing''"
  "protocol_id eyeBreak = ''eye-break''"
  "protocol_id alternateNostril = ''alternate-nostril''"
  by (simp_all add: boxBreathing_def eyeBreak_def alternateNostril_def)

lemma pick_quarter_single: "pickRandom (quarter 0) [x] = Inr x"
  by (simp add: pickRandom_def quarter_def)

lemma hourlyGap_filters:
  "untried hourlyGapState (getProtocolsByGoal Focus) = []"
  "undertried hourlyGapState (getProtocolsByGoal Focus) = []"
  "hourlyUndertried hourlyGapState 10 (getProtocolsByGoal Focus) = [alternateNostril]"
  by (simp_all add: focus_candidates untried_def undertried_def hourlyUndertried_def
      hourlyGapState_def sameRated_def MIN_TRIALS_FOR_THOMPSON_def MIN_HOURLY_EXPLORATION_def)

lemma hourlyGap_select:
  "selectProtocol Focus tenOClock quarter hourlyGapState =
     Some (Inr \<lparr>selection = \<lparr>protocol = alternateNostril, duration = 90\<rparr>,
          phase = HourlyExploration, stored = hourlyGapState\<rparr>)"
proof -
  have h: "hourOfDay tenOClock = 10" by (simp add: tenOClock_def)
  show ?thesis
    by (simp add: selectProtocol_def Let_def hourlyGap_filters h pick_quarter_single)
       (simp add: alternateNostril_def)
qed

lemma sameRated_not_drifting: "\<not> drifting now hourlyGapState pid"
  by (simp add: drifting_def hourlyGapState_def sameRated_def)

lemma hourlyGap_sweep:
  "driftSweep now (getProtocolsByGoal Focus) hourlyGapState = hourlyGapState"
  by (rule driftSweep_id) (simp add: sameRated_not_drifting)

text \<open>The computed means of the example posteriors, and the threshold.\<close>

lemma betaMean64_even:
  "betaMean64 16 16 = 1 / 2"
  "betaMean64 4 4 = 1 / 2"
  using double_representable[of 32 0] double_representable[of 8 0]
  by (simp_all add: betaMean64_def)

lemma threshold_positive: "0 < CLOSE_COMPETITION_THRESHOLD"
  unfolding CLOSE_COMPETITION_THRESHOLD_def double_005 by simp

lemma hourlyGap_close:
  "isCloseCompetition (allProtocolStats hourlyGapState (getProtocolsByGoal Focus))"
  by (simp add: focus_candidates allProtocolStats_def isCloseCompetition_def sortDesc_def
      List.map_filter_simps hourlyGapState_def sameRated_def orElse_def Let_def
      betaMean64_even threshold_positive)

subsection \<open>The ranking\<close>





section \<open>The ensemble arbitrator\<close>

text \<open>
  C9. For a non-empty \<open>protocols\<close> array, random numbers in \<open>(0, 1)\<close> and a sampler whose
  rejection loops end, \<open>ensembleVoting\<close> with the weights that the orchestrator passes
  returns a result. Its
  votes are those of the four strategies, Thompson, UCB, epsilon-greedy and softmax, in this
  order; the weights are 0.35, 0.25, 0.25 and 0.15; the winner received a vote, and no
  protocol that received a vote has a larger sum of weighted confidences than the winner;
  \<open>consensusScore\<close> is the number of the four votes that went to the winner, divided by 4,
  hence one of 0, 0.25, 0.5, 0.75 and 1. When \<open>selectProtocol\<close> returns through the ensemble
  branch, the protocol it returns is the winner of this vote over its candidates.
\<close>

theorem ensembleVoting_weighted_consensus:
  assumes "ps \<noteq> []" and "unitSource rnd" and "samplerReturns rnd"
  shows "(\<exists>r v1 v2 v3 v4 rnd1 rnd2.
           ensembleVoting ps totalTrials ensembleWeights rnd = Some (Inr r)
         \<and> thompsonVote ps rnd = Some (Inr (v1, rnd1))
         \<and> ucbVote ps totalTrials = Inr v2
         \<and> epsilonGreedyVote ps totalTrials rnd1 = Inr (v3, rnd2)
         \<and> softmaxVote ps totalTrials rnd2 = Inr v4
         \<and> votes r = [v1, v2, v3, v4]
         \<and> map vote_algorithm (votes r) = [Thompson, UCB, EpsilonGreedy, Softmax]
         \<and> map (weightOf ensembleWeights) [Thompson, UCB, EpsilonGreedy, Softmax]
              = [0.35, 0.25, 0.25, 0.15]
         \<and> selectedProtocolId r \<in> vote_protocolId ` set (votes r)
         \<and> (\<forall>v \<in> set (votes r). weightedTotal ensembleWeights (votes r) (vote_protocolId v)
                \<le> weightedTotal ensembleWeights (votes r) (selectedProtocolId r))
         \<and> consensusScore r =
             real (length (filter (\<lambda>v. vote_protocolId v = selectedProtocolId r) (votes r))) / 4
         \<and> consensusScore r \<in> {0, 0.25, 0.5, 0.75, 1.0})
     \<and> (selectProtocol g clk rnd data = Some (Inr out) \<and> phase out = EnsembleVoting \<longrightarrow>
          (\<exists>r. ensembleVoting
                 (protocolsForEnsemble (driftSweep (nowMs clk) (getProtocolsByGoal g) data)
                    (getProtocolsByGoal g))
                 (sum_list (map e_trials
                    (protocolsForEnsemble (driftSweep (nowMs clk) (getProtocolsByGoal g) data)
                       (getProtocolsByGoal g))))
                 ensembleWeights rnd = Some (Inr r)
             \<and> protocol_id (protocol (selection out)) = selectedProtocolId r))"
proof -
  from ensembleVoting_result[OF assms, of totalTrials ensembleWeights]
  obtain r v1 v2 v3 v4 rnd1 rnd2 where h:
    "ensembleVoting ps totalTrials ensembleWeights rnd = Some (Inr r)
     \<and> thompsonVote ps rnd = Some (Inr (v1, rnd1)) \<and> ucbVote ps totalTrials = Inr v2
     \<and> epsilonGreedyVote ps totalTrials rnd1 = Inr (v3, rnd2)
     \<and> softmaxVote ps totalTrials rnd2 = Inr v4
     \<and> votes r = [v1, v2, v3, v4]
     \<and> map vote_algorithm (votes r) = [Thompson, UCB, EpsilonGreedy, Softmax]
     \<and> selectedProtocolId r \<in> vote_protocolId ` set (votes r)
     \<and> selectedProtocolId r \<in> e_id ` set ps
     \<and> (\<forall>v \<in> set (votes r). weightedTotal ensembleWeights (votes r) (vote_protocolId v)
                \<le> weightedTotal ensembleWeights (votes r) (selectedProtocolId r))
     \<and> consensusScore r =
       real (length (filter (\<lambda>v. vote_protocolId v = selectedProtocolId r) (votes r))) / 4"
    by (elim exE) (rule that)
  have w: "map (weightOf ensembleWeights) [Thompson, UCB, EpsilonGreedy, Softmax]
              = [0.35, 0.25, 0.25, 0.15]"
    by (simp add: weightOf_def ensembleWeights_def)
  from h have vs: "votes r = [v1, v2, v3, v4]" by blast
  from h have c: "consensusScore r =
       real (length (filter (\<lambda>v. vote_protocolId v = selectedProtocolId r) (votes r))) / 4"
    by blast
  have len: "length (votes r) = 4" by (simp add: vs)
  have "length (filter (\<lambda>v. vote_protocolId v = selectedProtocolId r) (votes r)) \<le> 4"
    using length_filter_le[of "\<lambda>v. vote_protocolId v = selectedProtocolId r" "votes r"] len
    by simp
  then have q: "consensusScore r \<in> {0, 0.25, 0.5, 0.75, 1.0}"
    unfolding c by (rule quarters)
  have first: "\<exists>r v1 v2 v3 v4 rnd1 rnd2.
           ensembleVoting ps totalTrials ensembleWeights rnd = Some (Inr r)
         \<and> thompsonVote ps rnd = Some (Inr (v1, rnd1))
         \<and> ucbVote ps totalTrials = Inr v2
         \<and> epsilonGreedyVote ps totalTrials rnd1 = Inr (v3, rnd2)
         \<and> softmaxVote ps totalTrials rnd2 = Inr v4
         \<and> votes r = [v1, v2, v3, v4]
         \<and> map vote_algorithm (votes r) = [Thompson, UCB, EpsilonGreedy, Softmax]
         \<and> map (weightOf ensembleWeights) [Thompson, UCB, EpsilonGreedy, Softmax]
              = [0.35, 0.25, 0.25, 0.15]
         \<and> selectedProtocolId r \<in> vote_protocolId ` set (votes r)
         \<and> (\<forall>v \<in> set (votes r). weightedTotal ensembleWeights (votes r) (vote_protocolId v)
                \<le> weightedTotal ensembleWeights (votes r) (selectedProtocolId r))
         \<and> consensusScore r =
             real (length (filter (\<lambda>v. vote_protocolId v = selectedProtocolId r) (votes r))) / 4
         \<and> consensusScore r \<in> {0, 0.25, 0.5, 0.75, 1.0}"
    apply (rule exI[of _ r], rule exI[of _ v1], rule exI[of _ v2], rule exI[of _ v3],
        rule exI[of _ v4], rule exI[of _ rnd1], rule exI[of _ rnd2])
    using h w q by blast
  have second: "selectProtocol g clk rnd data = Some (Inr out) \<and> phase out = EnsembleVoting \<longrightarrow>
          (\<exists>r. ensembleVoting
                 (protocolsForEnsemble (driftSweep (nowMs clk) (getProtocolsByGoal g) data)
                    (getProtocolsByGoal g))
                 (sum_list (map e_trials
                    (protocolsForEnsemble (driftSweep (nowMs clk) (getProtocolsByGoal g) data)
                       (getProtocolsByGoal g))))
                 ensembleWeights rnd = Some (Inr r)
             \<and> protocol_id (protocol (selection out)) = selectedProtocolId r)"
  proof
    assume a: "selectProtocol g clk rnd data = Some (Inr out) \<and> phase out = EnsembleVoting"
    from selectProtocol_outcome[OF assms(2,3), of g clk data] a
    have e: "untried data (getProtocolsByGoal g) = []"
        "undertried data (getProtocolsByGoal g) = []"
        "hourlyUndertried data (hourOfDay clk) (getProtocolsByGoal g) = []"
        "isCloseCompetition
           (allProtocolStats (driftSweep (nowMs clk) (getProtocolsByGoal g) data)
              (getProtocolsByGoal g))"
      by (auto split: if_splits)
    from select_ensemble[OF assms(2,3) e] a
    show "\<exists>r. ensembleVoting
                 (protocolsForEnsemble (driftSweep (nowMs clk) (getProtocolsByGoal g) data)
                    (getProtocolsByGoal g))
                 (sum_list (map e_trials
                    (protocolsForEnsemble (driftSweep (nowMs clk) (getProtocolsByGoal g) data)
                       (getProtocolsByGoal g))))
                 ensembleWeights rnd = Some (Inr r)
             \<and> protocol_id (protocol (selection out)) = selectedProtocolId r"
      by auto
  qed
  from first second show ?thesis by blast
qed

lemma closeState_filters:
  "untried closeState (getProtocolsByGoal Focus) = []"
  "undertried closeState (getProtocolsByGoal Focus) = []"
  "hourlyUndertried closeState (hourOfDay tenOClock) (getProtocolsByGoal Focus) = []"
  by (simp_all add: focus_candidates untried_def undertried_def hourlyUndertried_def
      closeState_def sameRated_def MIN_TRIALS_FOR_THOMPSON_def MIN_HOURLY_EXPLORATION_def
      tenOClock_def)

lemma closeState_sweep:
  "driftSweep now (getProtocolsByGoal Focus) closeState = closeState"
  by (rule driftSweep_id) (simp add: drifting_def closeState_def sameRated_def)

lemma closeState_stats:
  "isCloseCompetition (allProtocolStats closeState (getProtocolsByGoal Focus))"
  by (simp add: focus_candidates allProtocolStats_def isCloseCompetition_def sortDesc_def
      List.map_filter_simps closeState_def sameRated_def orElse_def Let_def
      betaMean64_even threshold_positive)

text \<open>The state in which all three candidates for "focus" have thirty sessions at ten
  o'clock: the vote takes place and decides.\<close>

theorem ensembleVoting_weighted_consensus_witness:
  "protocolsForEnsemble closeState (getProtocolsByGoal Focus) \<noteq> []
   \<and> unitSource quarter
   \<and> samplerReturns quarter
   \<and> (\<exists>r. ensembleVoting (protocolsForEnsemble closeState (getProtocolsByGoal Focus)) 90
              ensembleWeights quarter = Some (Inr r)
          \<and> consensusScore r \<in> {0, 0.25, 0.5, 0.75, 1.0}
          \<and> selectedProtocolId r \<in> vote_protocolId ` set (votes r))
   \<and> (\<exists>out r. selectProtocol Focus tenOClock quarter closeState = Some (Inr out)
          \<and> phase out = EnsembleVoting
          \<and> ensembleVoting (protocolsForEnsemble closeState (getProtocolsByGoal Focus))
                (sum_list (map e_trials
                   (protocolsForEnsemble closeState (getProtocolsByGoal Focus))))
                ensembleWeights quarter = Some (Inr r)
          \<and> protocol_id (protocol (selection out)) = selectedProtocolId r)"
proof -
  have ne: "protocolsForEnsemble closeState (getProtocolsByGoal Focus) \<noteq> []"
    by (simp add: protocolsForEnsemble_Nil catalog_nonempty)
  have close: "isCloseCompetition
      (allProtocolStats (driftSweep (nowMs tenOClock) (getProtocolsByGoal Focus) closeState)
         (getProtocolsByGoal Focus))"
    using closeState_stats by (simp only: closeState_sweep)
  obtain out where o: "selectProtocol Focus tenOClock quarter closeState = Some (Inr out)"
      "phase out = EnsembleVoting"
    using selectProtocol_outcome[OF quarter_unit quarter_returns, of Focus tenOClock closeState]
      closeState_filters close by auto
  from ensembleVoting_weighted_consensus[OF ne quarter_unit quarter_returns,
      of 90 Focus tenOClock closeState out] o
  show ?thesis
    using ne quarter_unit quarter_returns by (simp only: closeState_sweep) blast
qed

section \<open>The order of the phases\<close>

text \<open>
  C2 describes five phases and an hourly-exploration phase that is switched off. In the
  source the hourly filter sits between the second phase and the drift sweep and returns
  like the two before it. In the state below the candidates for "focus" all have thirty
  trials, so the first two phases do not match; no candidate drifts, and the two best are in
  close competition, so the five phases of the claim lead to the ensemble and to the learned
  dose. The call at ten o'clock instead returns alternate nostril breathing, the only
  candidate without sessions at that hour, at its base duration.
\<close>

theorem hourly_phase_decides:
  "selectProtocol Focus tenOClock quarter hourlyGapState =
     Some (Inr \<lparr>selection = \<lparr>protocol = alternateNostril, duration = 90\<rparr>,
          phase = HourlyExploration, stored = hourlyGapState\<rparr>)
   \<and> untried hourlyGapState (getProtocolsByGoal Focus) = []
   \<and> undertried hourlyGapState (getProtocolsByGoal Focus) = []
   \<and> driftSweep (nowMs tenOClock) (getProtocolsByGoal Focus) hourlyGapState = hourlyGapState
   \<and> isCloseCompetition (allProtocolStats hourlyGapState (getProtocolsByGoal Focus))
   \<and> learnedDuration hourlyGapState alternateNostril = 90"
  by (simp add: hourlyGap_select hourlyGap_filters hourlyGap_sweep hourlyGap_close)
     (simp add: learnedDuration_def hourlyGapState_def sameRated_def orElse_def alternateNostril_def)


section \<open>The close-competition check\<close>


subsection \<open>Means that are 0.05 apart\<close>


text \<open>Beta(12, 8) and Beta(11, 9) have the same computed means.\<close>

lemma boundary_means_20:
  "betaMean64 12 8 = 5404319552844595 / 9007199254740992"
  "betaMean64 11 9 = 2476979795053773 / 4503599627370496"
proof -
  have s3: "double (12 + 8) = 20"
    using double_representable[of 5 2] by simp
  have q3: "double (12 / 20) = 5404319552844595 / 9007199254740992"
    using double_evalI[of "- 1" "12 / 20" 5404319552844595]
    by (simp add: roundEven_def Let_def)
  show "betaMean64 12 8 = 5404319552844595 / 9007199254740992"
    unfolding betaMean64_def s3 by (rule q3)
  have s4: "double (11 + 9) = 20"
    using double_representable[of 5 2] by simp
  have q4: "double (11 / 20) = 2476979795053773 / 4503599627370496"
    using double_evalI[of "- 1" "11 / 20" 4953959590107546]
    by (simp add: roundEven_def Let_def)
  show "betaMean64 11 9 = 2476979795053773 / 4503599627370496"
    unfolding betaMean64_def s4 by (rule q4)
qed








section \<open>What a selection writes\<close>

lemma driftState_filters:
  "untried driftState (getProtocolsByGoal Focus) = []"
  "undertried driftState (getProtocolsByGoal Focus) = []"
  "hourlyUndertried driftState (hourOfDay tenOClock) (getProtocolsByGoal Focus) = []"
  by (simp_all add: focus_candidates untried_def undertried_def hourlyUndertried_def
      driftState_def sameRated_def softResetAt_def MIN_TRIALS_FOR_THOMPSON_def
      MIN_HOURLY_EXPLORATION_def tenOClock_def)

lemma driftState_drifting:
  "drifting (nowMs tenOClock) driftState pid \<longleftrightarrow> pid = ''box-breathing''"
  by (simp add: drifting_def driftState_def sameRated_def softResetAt_def tenOClock_def
      shouldResetDueToDrift_def truthy_def DRIFT_VARIANCE_THRESHOLD_def DRIFT_COOLDOWN_MS_def)

lemma driftState_swept:
  "models (driftSweep (nowMs tenOClock) [boxBreathing, eyeBreak, alternateNostril] driftState) =
     [''box-breathing'' \<mapsto> resetModel (nowMs tenOClock),
      ''eye-break'' \<mapsto> sameRated 6 10 60,
      ''alternate-nostril'' \<mapsto> sameRated 6 10 90]"
proof (rule ext)
  fix pid
  have m: "models (driftSweep (nowMs tenOClock) [boxBreathing, eyeBreak, alternateNostril]
             driftState) pid =
     (if pid \<in> protocol_id ` set [boxBreathing, eyeBreak, alternateNostril]
          \<and> drifting (nowMs tenOClock) driftState pid
      then Some (resetModel (nowMs tenOClock)) else models driftState pid)"
    by (rule driftSweep_models)
  show "models (driftSweep (nowMs tenOClock) [boxBreathing, eyeBreak, alternateNostril]
          driftState) pid =
     [''box-breathing'' \<mapsto> resetModel (nowMs tenOClock),
      ''eye-break'' \<mapsto> sameRated 6 10 60,
      ''alternate-nostril'' \<mapsto> sameRated 6 10 90] pid"
    unfolding m driftState_drifting by (simp add: driftState_def)
qed

lemma variance_4_4: "posteriorVariance 4 4 = 1 / 36"
  by (simp add: posteriorVariance_def)

text \<open>
  C3 as stated says that a selection never writes. In the state below box breathing carries
  the variance of a soft reset that is one hour old; the drift sweep replaces its model by
  the reset model and saves: the stored model has 6 trials before the call and 0 after it.
\<close>

theorem drift_sweep_writes_counterexample:
  "selectProtocol Focus tenOClock quarter driftState =
     Some (Inr \<lparr>selection = \<lparr>protocol = eyeBreak, duration = 60\<rparr>,
          phase = StandardSelection,
          stored = driftSweep (nowMs tenOClock) (getProtocolsByGoal Focus) driftState\<rparr>)
   \<and> map_option trials (models driftState ''box-breathing'') = Some 6
   \<and> map_option trials
        (models (driftSweep (nowMs tenOClock) (getProtocolsByGoal Focus) driftState)
           ''box-breathing'') = Some 0"
proof -
  let ?S = "driftSweep (nowMs tenOClock) [boxBreathing, eyeBreak, alternateNostril] driftState"
  have stats: "\<not> isCloseCompetition
      (allProtocolStats ?S [boxBreathing, eyeBreak, alternateNostril])"
    by (simp add: allProtocolStats_def driftState_swept isCloseCompetition_def sortDesc_def
        resetModel_def sameRated_def orElse_def Let_def betaMean64_even
        del: driftSweep.simps)
  have s1: "candidateScore ?S boxBreathing quarter = Some (3 / 10, quarter)"
    by (simp add: candidateScore_def driftState_swept resetModel_def
        MIN_TRIALS_FOR_THOMPSON_def EXPLORATION_BONUS_def del: driftSweep.simps)
       (simp add: quarter_def)
  have s2: "candidateScore ?S eyeBreak quarter = Some (61 / 120, quarter)"
    by (simp add: candidateScore_def driftState_swept sameRated_def orElse_def Let_def
        MIN_TRIALS_FOR_THOMPSON_def EXPLORATION_BONUS_def sampleBeta_quarter_ge
        variance_4_4 sqrt_36th del: driftSweep.simps)
  have s3: "candidateScore ?S alternateNostril quarter = Some (61 / 120, quarter)"
    by (simp add: candidateScore_def driftState_swept sameRated_def orElse_def Let_def
        MIN_TRIALS_FOR_THOMPSON_def EXPLORATION_BONUS_def sampleBeta_quarter_ge
        variance_4_4 sqrt_36th del: driftSweep.simps)
  have loop: "thompsonLoop ?S [boxBreathing, eyeBreak, alternateNostril] quarter
      (boxBreathing, None) = Some (eyeBreak, Some (61 / 120))"
    by (simp add: s1 s2 s3 del: driftSweep.simps)
  have dur: "learnedDuration ?S eyeBreak = 60"
    by (simp add: learnedDuration_def driftState_swept sameRated_def orElse_def Let_def
        del: driftSweep.simps)
  have a: "selectProtocol Focus tenOClock quarter driftState =
     Some (Inr \<lparr>selection = \<lparr>protocol = eyeBreak, duration = 60\<rparr>,
          phase = StandardSelection,
          stored = driftSweep (nowMs tenOClock) (getProtocolsByGoal Focus) driftState\<rparr>)"
    using stats
    by (simp add: selectProtocol_def Let_def driftState_filters[unfolded focus_candidates]
        focus_candidates loop dur del: driftSweep.simps thompsonLoop.simps)
  have b: "map_option trials (models driftState ''box-breathing'') = Some 6"
    by (simp add: driftState_def softResetAt_def)
  have c: "map_option trials (models ?S ''box-breathing'') = Some 0"
    by (simp add: driftState_swept resetModel_def del: driftSweep.simps)
  from a b c show ?thesis by (simp add: focus_candidates del: driftSweep.simps)
qed

text \<open>
  C3 (amended). For random numbers in \<open>(0, 1)\<close> and a sampler whose rejection loops end,
  a call of \<open>selectProtocol\<close> returns, and the only thing it writes is the drift sweep: history and streak are
  unchanged; when the call returns from one of the last two branches, the model of every
  candidate that passes the drift test is replaced by the reset model; every other model is
  unchanged. In particular the stored state is unchanged when an earlier phase returns or
  when no candidate passes the drift test. The result is a function of the goal, the
  clock, the random source and the loaded state.
\<close>

theorem selectProtocol_stored:
  assumes "unitSource rnd" and "samplerReturns rnd"
  shows "\<exists>out. selectProtocol g clk rnd data = Some (Inr out)
      \<and> history (stored out) = history data \<and> streak (stored out) = streak data
      \<and> (\<forall>pid. models (stored out) pid =
            (if phase out \<in> {EnsembleVoting, StandardSelection}
                \<and> pid \<in> protocol_id ` set (getProtocolsByGoal g)
                \<and> drifting (nowMs clk) data pid
             then Some (resetModel (nowMs clk)) else models data pid))
      \<and> (phase out \<in> {ExploringUntried, BuildingData, HourlyExploration}
            \<or> (\<forall>p \<in> set (getProtocolsByGoal g). \<not> drifting (nowMs clk) data (protocol_id p))
          \<longrightarrow> stored out = data)"
proof -
  let ?cands = "getProtocolsByGoal g"
  let ?early = "untried data ?cands \<noteq> [] \<or> undertried data ?cands \<noteq> []
              \<or> hourlyUndertried data (hourOfDay clk) ?cands \<noteq> []"
  obtain out where o: "selectProtocol g clk rnd data = Some (Inr out)"
    and st: "stored out = (if ?early then data else driftSweep (nowMs clk) ?cands data)"
    and ph: "?early \<longleftrightarrow> phase out \<in> {ExploringUntried, BuildingData, HourlyExploration}"
            "\<not> ?early \<longleftrightarrow> phase out \<in> {EnsembleVoting, StandardSelection}"
    using selectProtocol_outcome[OF assms, of g clk data] by (auto split: if_splits)
  have fr: "history (stored out) = history data \<and> streak (stored out) = streak data"
    unfolding st using driftSweep_frame[of "nowMs clk" ?cands data] by simp
  have md: "\<forall>pid. models (stored out) pid =
            (if phase out \<in> {EnsembleVoting, StandardSelection}
                \<and> pid \<in> protocol_id ` set ?cands \<and> drifting (nowMs clk) data pid
             then Some (resetModel (nowMs clk)) else models data pid)"
    unfolding st using ph by (simp add: driftSweep_models)
  have un: "phase out \<in> {ExploringUntried, BuildingData, HourlyExploration}
            \<or> (\<forall>p \<in> set ?cands. \<not> drifting (nowMs clk) data (protocol_id p))
          \<longrightarrow> stored out = data"
    unfolding st using ph driftSweep_id[of ?cands "nowMs clk" data] by auto
  from o fr md un show ?thesis by blast
qed

lemma hourlyGap_no_drift:
  "\<forall>p \<in> set (getProtocolsByGoal Focus). \<not> drifting (nowMs tenOClock) hourlyGapState (protocol_id p)"
  by (simp add: sameRated_not_drifting)

text \<open>Without a drifting candidate the stored state is unchanged; with box breathing
  drifting, the other models and the history are.\<close>

theorem selectProtocol_stored_witness:
  "unitSource quarter
   \<and> samplerReturns quarter
   \<and> \<not> drifting (nowMs tenOClock) hourlyGapState ''box-breathing''
   \<and> \<not> drifting (nowMs tenOClock) hourlyGapState ''eye-break''
   \<and> \<not> drifting (nowMs tenOClock) hourlyGapState ''alternate-nostril''
   \<and> (\<exists>out. selectProtocol Focus tenOClock quarter hourlyGapState = Some (Inr out)
         \<and> stored out = hourlyGapState)
   \<and> (\<exists>out. selectProtocol Focus tenOClock quarter driftState = Some (Inr out)
         \<and> history (stored out) = history driftState
         \<and> models (stored out) ''eye-break'' = models driftState ''eye-break'')"
proof -
  from selectProtocol_stored[OF quarter_unit quarter_returns, of Focus tenOClock hourlyGapState]
  have a: "\<exists>out. selectProtocol Focus tenOClock quarter hourlyGapState = Some (Inr out)
         \<and> stored out = hourlyGapState"
    using hourlyGap_no_drift by blast
  from selectProtocol_stored[OF quarter_unit quarter_returns, of Focus tenOClock driftState]
  have b: "\<exists>out. selectProtocol Focus tenOClock quarter driftState = Some (Inr out)
         \<and> history (stored out) = history driftState
         \<and> models (stored out) ''eye-break'' = models driftState ''eye-break''"
    by (auto simp: driftState_drifting)
  from a b quarter_unit quarter_returns sameRated_not_drifting show ?thesis by blast
qed

section \<open>The stored posterior\<close>

text \<open>
  C4 as stated has every posterior seeded with Beta(1.5, 1.0). The model that \<open>updateModel\<close>
  creates for a protocol without a stored model starts from Beta(1, 1): after a first
  "better" rating the stored alpha is 2, where the seed 1.5 would give 2.5.
\<close>

theorem fresh_prior_counterexample:
  "alphaParam freshModel = Some 1 \<and> betaParam freshModel = Some 1
   \<and> models defaultData ''box-breathing'' = None
   \<and> Option.bind (models (updateModel noon ''box-breathing'' 1 120 defaultData) ''box-breathing'')
        alphaParam = Some 2
   \<and> alpha (updateBetaParams 1.5 1.0 (deltaToReward 1)) = 2.5"
proof -
  have v: "calculateRecentVariance [1] = 0" by (simp add: calculateRecentVariance_def)
  have n: "\<not> shouldResetDueToDrift t 0 ts" for t ts
    by (simp add: shouldResetDueToDrift_def DRIFT_VARIANCE_THRESHOLD_def)
  have "Option.bind (models (updateModel noon ''box-breathing'' 1 120 defaultData) ''box-breathing'')
        alphaParam = Some 2"
    by (simp add: updateModel_def Let_def defaultData_def freshModel_def updateAverages_def
        countTrial_def updatePosterior_def updateBetaParams_def updateHourlyModel_def
        initializeHourlyModel_def updateDriftWindow_def updateScoreWindow_def
        DRIFT_WINDOW_SIZE_def v n softResetOnDrift_def orElse_def deltaToReward_def
        updateHourlyPerformance_def updateMedDuration_def)
  then show ?thesis
    by (simp add: freshModel_def defaultData_def updateBetaParams_def deltaToReward_def)
qed

subsection \<open>The posterior parameters stay at or above 1\<close>

lemma deltaToReward_range: "0 \<le> deltaToReward d \<and> deltaToReward d \<le> 1"
  by (simp add: deltaToReward_def)

lemma orElse_ge:
  "(case x of None \<Rightarrow> True | Some a \<Rightarrow> 1 \<le> a) \<Longrightarrow> 1 \<le> orElse x 1"
  by (auto simp: orElse_def split: option.splits)

lemma softReset_ge:
  assumes "1 \<le> a" "1 \<le> b"
  shows "1 \<le> alpha (softResetBetaParams a b)" "1 \<le> beta (softResetBetaParams a b)"
proof -
  have k: "0 \<le> real_of_int \<lfloor>(a + b - 2) * 0.25\<rfloor>" using kept_bounds(1)[OF assms] by simp
  have m: "0 \<le> a / (a + b)" "a / (a + b) \<le> 1" using assms by simp_all
  have "0 \<le> a / (a + b) * real_of_int \<lfloor>(a + b - 2) * 0.25\<rfloor>"
    using k m by (intro mult_nonneg_nonneg) simp_all
  then show "1 \<le> alpha (softResetBetaParams a b)"
    by (simp add: softReset_fields)
  have "0 \<le> (1 - a / (a + b)) * real_of_int \<lfloor>(a + b - 2) * 0.25\<rfloor>"
    using k m by (intro mult_nonneg_nonneg) simp_all
  then show "1 \<le> beta (softResetBetaParams a b)"
    by (simp add: softReset_fields)
qed

text \<open>Only two groups of statements of \<open>updateModel\<close> write the parameters: the
  conjugate update and the soft reset.\<close>

lemma updateAverages_params [simp]:
  "alphaParam (updateAverages d m) = alphaParam m"
  "betaParam (updateAverages d m) = betaParam m"
  by (simp_all add: updateAverages_def Let_def)

lemma countTrial_params [simp]:
  "alphaParam (countTrial clk d m) = alphaParam m"
  "betaParam (countTrial clk d m) = betaParam m"
  by (simp_all add: countTrial_def)

lemma updatePosterior_params:
  "alphaParam (updatePosterior r m) = Some (orElse (alphaParam m) 1 + r)"
  "betaParam (updatePosterior r m) = Some (orElse (betaParam m) 1 + (1 - r))"
  by (simp_all add: updatePosterior_def Let_def updateBetaParams_def)

lemma updateHourlyModel_params [simp]:
  "alphaParam (updateHourlyModel m h r) = alphaParam m"
  "betaParam (updateHourlyModel m h r) = betaParam m"
  by (simp_all add: updateHourlyModel_def Let_def)

lemma updateDriftWindow_params [simp]:
  "alphaParam (updateDriftWindow d m) = alphaParam m"
  "betaParam (updateDriftWindow d m) = betaParam m"
  by (simp_all add: updateDriftWindow_def Let_def)

lemma updateHourlyPerformance_params [simp]:
  "alphaParam (updateHourlyPerformance h d m) = alphaParam m"
  "betaParam (updateHourlyPerformance h d m) = betaParam m"
  by (simp_all add: updateHourlyPerformance_def Let_def)

lemma updateMedDuration_params [simp]:
  "alphaParam (updateMedDuration d cur step m) = alphaParam m"
  "betaParam (updateMedDuration d cur step m) = betaParam m"
  by (simp_all add: updateMedDuration_def)

lemma softResetOnDrift_params:
  assumes "alphaParam m = Some a" "betaParam m = Some b" "1 \<le> a" "1 \<le> b"
  shows "\<exists>a' b'. alphaParam (softResetOnDrift clk m) = Some a'
           \<and> betaParam (softResetOnDrift clk m) = Some b' \<and> 1 \<le> a' \<and> 1 \<le> b'"
  using assms softReset_ge[of a b] by (simp add: softResetOnDrift_def Let_def)

lemma updateModel_touched:
  assumes "case models data pid of None \<Rightarrow> True | Some m \<Rightarrow> posteriorOK m"
  shows "\<exists>m a b. models (updateModel clk pid d cur data) pid = Some m
           \<and> alphaParam m = Some a \<and> betaParam m = Some b \<and> 1 \<le> a \<and> 1 \<le> b"
proof -
  define m0 where "m0 = (case models data pid of None \<Rightarrow> freshModel | Some m \<Rightarrow> m)"
  have ok0: "posteriorOK m0"
    using assms by (auto simp: m0_def posteriorOK_def freshModel_def split: option.splits)
  define m3 where "m3 = updateDriftWindow d (updateHourlyModel
      (updatePosterior (deltaToReward d) (countTrial clk d (updateAverages d m0)))
      (hourOfDay clk) (deltaToReward d))"
  have a3: "alphaParam m3 = Some (orElse (alphaParam m0) 1 + deltaToReward d)"
    and b3: "betaParam m3 = Some (orElse (betaParam m0) 1 + (1 - deltaToReward d))"
    by (simp_all add: m3_def updatePosterior_params)
  have ga: "1 \<le> orElse (alphaParam m0) 1 + deltaToReward d"
    using orElse_ge[of "alphaParam m0"] ok0 deltaToReward_range[of d]
    by (simp add: posteriorOK_def)
  have gb: "1 \<le> orElse (betaParam m0) 1 + (1 - deltaToReward d)"
    using orElse_ge[of "betaParam m0"] ok0 deltaToReward_range[of d]
    by (simp add: posteriorOK_def)
  obtain a' b' where r: "alphaParam (softResetOnDrift clk m3) = Some a'"
      "betaParam (softResetOnDrift clk m3) = Some b'" "1 \<le> a'" "1 \<le> b'"
    using softResetOnDrift_params[OF a3 b3 ga gb] by blast
  have "models (updateModel clk pid d cur data) pid =
      Some (updateMedDuration d cur (medStep (history data) pid)
              (updateHourlyPerformance (hourOfDay clk) d (softResetOnDrift clk m3)))"
    by (simp add: updateModel_def Let_def m3_def m0_def)
  then show ?thesis using r by simp
qed

lemma updateModel_posteriorsOK:
  assumes "posteriorsOK data"
  shows "posteriorsOK (updateModel clk pid d cur data)"
  unfolding posteriorsOK_def
proof (intro allI impI)
  fix q m assume q: "models (updateModel clk pid d cur data) q = Some m"
  show "posteriorOK m"
  proof (cases "q = pid")
    case True
    have "case models data pid of None \<Rightarrow> True | Some m \<Rightarrow> posteriorOK m"
      using assms by (auto simp: posteriorsOK_def split: option.splits)
    from updateModel_touched[OF this, of clk d cur] q True show ?thesis
      by (auto simp: posteriorOK_def)
  next
    case False
    then show ?thesis using q assms by (simp add: updateModel_other posteriorsOK_def)
  qed
qed

lemma driftSweep_posteriorsOK:
  assumes "posteriorsOK data"
  shows "posteriorsOK (driftSweep now cands data)"
  using assms unfolding posteriorsOK_def driftSweep_models
  by (auto simp: posteriorOK_def resetModel_def split: if_splits)

text \<open>
  C4 (amended). A posterior created by \<open>updateModel\<close> starts from alpha = 1 and beta = 1,
  the posterior written by the full reset of the drift sweep is alpha = 1.5 and beta = 1.0.
  If the stored parameters are at least 1 wherever they are present, they still are after
  \<open>updateModel\<close> (lazy creation, feedback update and soft reset), after which the parameters
  of the rated protocol are present; \<open>softResetBetaParams\<close> maps parameters that are at
  least 1 to parameters that are at least 1; and they still are after the drift sweep and
  after a whole call of \<open>selectProtocol\<close> (for random numbers in \<open>(0, 1)\<close> and a sampler
  whose rejection loops end).
\<close>

theorem posterior_seed_and_floor:
  "alphaParam freshModel = Some 1 \<and> betaParam freshModel = Some 1
   \<and> alphaParam (resetModel now) = Some 1.5 \<and> betaParam (resetModel now) = Some 1.0
   \<and> (posteriorsOK data \<longrightarrow>
        posteriorsOK (updateModel clk pid d cur data)
        \<and> (\<exists>m a b. models (updateModel clk pid d cur data) pid = Some m
              \<and> alphaParam m = Some a \<and> betaParam m = Some b \<and> 1 \<le> a \<and> 1 \<le> b))
   \<and> (1 \<le> a0 \<and> 1 \<le> b0 \<longrightarrow>
        1 \<le> alpha (softResetBetaParams a0 b0) \<and> 1 \<le> beta (softResetBetaParams a0 b0))
   \<and> (posteriorsOK data \<longrightarrow> posteriorsOK (driftSweep now cands data))
   \<and> (posteriorsOK data \<and> unitSource rnd \<and> samplerReturns rnd \<longrightarrow>
        (\<exists>out. selectProtocol g clk rnd data = Some (Inr out) \<and> posteriorsOK (stored out)))"
proof -
  have s: "alphaParam freshModel = Some 1 \<and> betaParam freshModel = Some 1
     \<and> alphaParam (resetModel now) = Some 1.5 \<and> betaParam (resetModel now) = Some 1.0"
    by (simp add: freshModel_def resetModel_def)
  have u: "posteriorsOK data \<longrightarrow>
        posteriorsOK (updateModel clk pid d cur data)
        \<and> (\<exists>m a b. models (updateModel clk pid d cur data) pid = Some m
              \<and> alphaParam m = Some a \<and> betaParam m = Some b \<and> 1 \<le> a \<and> 1 \<le> b)"
  proof
    assume ok: "posteriorsOK data"
    then have "case models data pid of None \<Rightarrow> True | Some m \<Rightarrow> posteriorOK m"
      by (auto simp: posteriorsOK_def split: option.splits)
    from updateModel_touched[OF this, of clk d cur] updateModel_posteriorsOK[OF ok, of clk pid d cur]
    show "posteriorsOK (updateModel clk pid d cur data)
        \<and> (\<exists>m a b. models (updateModel clk pid d cur data) pid = Some m
              \<and> alphaParam m = Some a \<and> betaParam m = Some b \<and> 1 \<le> a \<and> 1 \<le> b)"
      by blast
  qed
  have r: "1 \<le> a0 \<and> 1 \<le> b0 \<longrightarrow>
        1 \<le> alpha (softResetBetaParams a0 b0) \<and> 1 \<le> beta (softResetBetaParams a0 b0)"
    using softReset_ge[of a0 b0] by blast
  have w: "posteriorsOK data \<longrightarrow> posteriorsOK (driftSweep now cands data)"
    using driftSweep_posteriorsOK by blast
  have p: "posteriorsOK data \<and> unitSource rnd \<and> samplerReturns rnd \<longrightarrow>
        (\<exists>out. selectProtocol g clk rnd data = Some (Inr out) \<and> posteriorsOK (stored out))"
  proof
    assume a: "posteriorsOK data \<and> unitSource rnd \<and> samplerReturns rnd"
    then obtain out where o: "selectProtocol g clk rnd data = Some (Inr out)"
      "stored out = data \<or> stored out = driftSweep (nowMs clk) (getProtocolsByGoal g) data"
      using selectProtocol_outcome[of rnd g clk data] by (auto split: if_splits)
    then have "posteriorsOK (stored out)"
      using a driftSweep_posteriorsOK[of data "nowMs clk" "getProtocolsByGoal g"] by auto
    with o(1) show "\<exists>out. selectProtocol g clk rnd data = Some (Inr out)
        \<and> posteriorsOK (stored out)"
      by blast
  qed
  from s u r w p show ?thesis by blast
qed

lemma hourlyGap_ok: "posteriorsOK hourlyGapState"
  by (simp add: posteriorsOK_def hourlyGapState_def sameRated_def posteriorOK_def)

theorem posterior_seed_and_floor_witness:
  "posteriorsOK hourlyGapState \<and> unitSource quarter \<and> samplerReturns quarter \<and> (1::real) \<le> 9 \<and> (1::real) \<le> 1
   \<and> posteriorsOK (updateModel noon ''box-breathing'' 1 120 hourlyGapState)
   \<and> 1 \<le> alpha (softResetBetaParams 9 1) \<and> 1 \<le> beta (softResetBetaParams 9 1)
   \<and> posteriorsOK (driftSweep (nowMs tenOClock) (getProtocolsByGoal Focus) hourlyGapState)
   \<and> (\<exists>out. selectProtocol Focus tenOClock quarter hourlyGapState = Some (Inr out)
         \<and> posteriorsOK (stored out))"
  using posterior_seed_and_floor[of "nowMs tenOClock" hourlyGapState noon "''box-breathing''" 1 120
      9 1 "getProtocolsByGoal Focus" quarter Focus]
    posterior_seed_and_floor[of "nowMs tenOClock" hourlyGapState tenOClock "''box-breathing''" 1 120
      9 1 "getProtocolsByGoal Focus" quarter Focus]
    hourlyGap_ok quarter_unit quarter_returns
  by simp


end
